theory Spec2Isabelle
  imports Complex_Main
begin

section \<open>Phase advance computation of GetLLM (GetLLM/algorithms/phase.py)\<close>

text \<open>
  The development embeds the helper functions and the two phase-advance matrix
  builders of \<^verbatim>\<open>phase.py\<close>. Python floats are modelled by real numbers (exact
  arithmetic, no rounding); the special values that numpy produces where a real
  result does not exist (\<^verbatim>\<open>nan\<close>, \<^verbatim>\<open>inf\<close>, \<^verbatim>\<open>-inf\<close>) are modelled explicitly by
  the type \<open>npfloat\<close> below. Signed zeros are not modelled.
\<close>

subsection \<open>Small-sample correction factor\<close>

text \<open>The dictionary literal \<^verbatim>\<open>correction_dict\<close> of \<^verbatim>\<open>t_value_correction\<close>.\<close>

definition correction_dict :: "(int \<times> real) list" where
  "correction_dict =
    [(2, 1.8394733927562799), (3, 1.3224035682262103), (4, 1.1978046912864673),
     (5, 1.1424650980932523), (6, 1.1112993008590089), (7, 1.0913332519214189),
     (8, 1.0774580800762166), (9, 1.0672589736833817), (10, 1.0594474783177483),
     (11, 1.053273802733051), (12, 1.0482721313740653), (13, 1.0441378866779087),
     (14, 1.0406635564353071), (15, 1.0377028976401199), (16, 1.0351498875115406),
     (17, 1.0329257912610941), (18, 1.0309709166064416), (19, 1.029239186837585),
     (20, 1.0276944692596461)]"

text \<open>
  \<^verbatim>\<open>t_value_correction(_num)\<close>: the argument is an integer at both call sites
  (\<^verbatim>\<open>len(phase0)-1\<close> and the entries of the integer array \<^verbatim>\<open>nfiles\<close>), so
  \<^verbatim>\<open>int(_num)\<close> is the identity. Inside the guard the key is always in the
  dictionary (lemma \<open>correction_dict_defined\<close>), so the subscript never raises.
\<close>

definition t_value_correction :: "int \<Rightarrow> real" where
  "t_value_correction num =
    (if num > 1 \<and> num \<le> 20 then the (map_of correction_dict num) else 1)"

text \<open>Python's \<^verbatim>\<open>int(x)\<close> on a float: truncation towards zero.\<close>

definition py_int :: "real \<Rightarrow> int" where
  "py_int x = (if x \<ge> 0 then \<lfloor>x\<rfloor> else \<lceil>x\<rceil>)"

text \<open>
  \<^verbatim>\<open>vec_t_value_correction = np.vectorize(t_value_correction, otypes=[int])\<close>:
  applied to one entry, the result of \<^verbatim>\<open>t_value_correction\<close> is cast to the
  declared output type \<^verbatim>\<open>int\<close>.
\<close>

definition vec_t_value_correction :: "int \<Rightarrow> int" where
  "vec_t_value_correction n = py_int (t_value_correction n)"

subsection \<open>numpy values and operations\<close>

text \<open>
  A numpy \<^verbatim>\<open>float64\<close>: a finite number or one of the special values. The
  operations below follow IEEE 754 as numpy implements it on arrays (a warning is
  printed, no exception is raised, and the special value is stored).
\<close>

datatype npfloat = Fin real | PInf | NInf | NaN

fun np_add :: "npfloat \<Rightarrow> npfloat \<Rightarrow> npfloat" where
  "np_add NaN _ = NaN"
| "np_add _ NaN = NaN"
| "np_add (Fin a) (Fin b) = Fin (a + b)"
| "np_add PInf NInf = NaN"
| "np_add NInf PInf = NaN"
| "np_add PInf _ = PInf"
| "np_add NInf _ = NInf"
| "np_add (Fin a) y = y"

fun np_negative :: "npfloat \<Rightarrow> npfloat" where
  "np_negative (Fin a) = Fin (- a)"
| "np_negative PInf = NInf"
| "np_negative NInf = PInf"
| "np_negative NaN = NaN"

definition np_subtract :: "npfloat \<Rightarrow> npfloat \<Rightarrow> npfloat" where
  "np_subtract x y = np_add x (np_negative y)"

fun np_multiply :: "npfloat \<Rightarrow> npfloat \<Rightarrow> npfloat" where
  "np_multiply NaN _ = NaN"
| "np_multiply _ NaN = NaN"
| "np_multiply (Fin a) (Fin b) = Fin (a * b)"
| "np_multiply (Fin a) PInf = (if a > 0 then PInf else if a < 0 then NInf else NaN)"
| "np_multiply (Fin a) NInf = (if a > 0 then NInf else if a < 0 then PInf else NaN)"
| "np_multiply PInf (Fin b) = (if b > 0 then PInf else if b < 0 then NInf else NaN)"
| "np_multiply NInf (Fin b) = (if b > 0 then NInf else if b < 0 then PInf else NaN)"
| "np_multiply PInf PInf = PInf"
| "np_multiply NInf NInf = PInf"
| "np_multiply PInf NInf = NInf"
| "np_multiply NInf PInf = NInf"

text \<open>Division by a zero that is not negative (here always a count of files).\<close>

fun np_divide :: "npfloat \<Rightarrow> npfloat \<Rightarrow> npfloat" where
  "np_divide NaN _ = NaN"
| "np_divide _ NaN = NaN"
| "np_divide (Fin a) (Fin b) =
     (if b \<noteq> 0 then Fin (a / b) else if a = 0 then NaN else if a > 0 then PInf else NInf)"
| "np_divide (Fin a) _ = Fin 0"
| "np_divide PInf (Fin b) = (if b \<ge> 0 then PInf else NInf)"
| "np_divide NInf (Fin b) = (if b \<ge> 0 then NInf else PInf)"
| "np_divide _ _ = NaN"

fun np_sqrt :: "npfloat \<Rightarrow> npfloat" where
  "np_sqrt (Fin a) = (if a \<ge> 0 then Fin (sqrt a) else NaN)"
| "np_sqrt PInf = PInf"
| "np_sqrt NInf = NaN"
| "np_sqrt NaN = NaN"

fun np_log :: "npfloat \<Rightarrow> npfloat" where
  "np_log (Fin a) = (if a > 0 then Fin (ln a) else if a = 0 then NInf else NaN)"
| "np_log PInf = PInf"
| "np_log NInf = NaN"
| "np_log NaN = NaN"

text \<open>
  \<^verbatim>\<open>x % m\<close> for a finite divisor \<^verbatim>\<open>m\<close> (Python's and numpy's remainder takes the
  sign of the divisor).
\<close>

definition py_mod :: "real \<Rightarrow> real \<Rightarrow> real" where
  "py_mod a m = a - m * of_int \<lfloor>a / m\<rfloor>"

fun np_remainder :: "npfloat \<Rightarrow> real \<Rightarrow> npfloat" where
  "np_remainder (Fin a) m = (if m = 0 then NaN else Fin (py_mod a m))"
| "np_remainder _ m = NaN"

text \<open>The angle of the point \<open>(x, y)\<close> in \<open>(-\<pi>, \<pi>]\<close>, as \<^verbatim>\<open>atan2(y, x)\<close> computes it.\<close>

definition arctan2 :: "real \<Rightarrow> real \<Rightarrow> real" where
  "arctan2 y x =
    (if x > 0 then arctan (y / x)
     else if x < 0 then (if y \<ge> 0 then arctan (y / x) + pi else arctan (y / x) - pi)
     else if y > 0 then pi / 2
     else if y < 0 then - (pi / 2)
     else 0)"

fun np_arctan2 :: "npfloat \<Rightarrow> npfloat \<Rightarrow> npfloat" where
  "np_arctan2 NaN _ = NaN"
| "np_arctan2 _ NaN = NaN"
| "np_arctan2 (Fin y) (Fin x) = Fin (arctan2 y x)"
| "np_arctan2 (Fin y) PInf = Fin 0"
| "np_arctan2 (Fin y) NInf = (if y \<ge> 0 then Fin pi else Fin (- pi))"
| "np_arctan2 PInf (Fin x) = Fin (pi / 2)"
| "np_arctan2 NInf (Fin x) = Fin (- (pi / 2))"
| "np_arctan2 PInf PInf = Fin (pi / 4)"
| "np_arctan2 PInf NInf = Fin (3 * pi / 4)"
| "np_arctan2 NInf PInf = Fin (- (pi / 4))"
| "np_arctan2 NInf NInf = Fin (- (3 * pi / 4))"

definition np_sum :: "npfloat list \<Rightarrow> npfloat" where
  "np_sum xs = foldl np_add (Fin 0) xs"

text \<open>
  \<^verbatim>\<open>np.nanmean\<close>, \<^verbatim>\<open>np.nanstd\<close> (with the default \<^verbatim>\<open>ddof=0\<close>) and the count
  \<^verbatim>\<open>np.sum(~np.isnan(...))\<close> along one axis: the \<^verbatim>\<open>nan\<close> entries are left out,
  and the sum is divided by the number of entries that remain.
\<close>

definition not_nan :: "npfloat list \<Rightarrow> npfloat list" where
  "not_nan xs = filter (\<lambda>x. x \<noteq> NaN) xs"

definition np_nanmean :: "npfloat list \<Rightarrow> npfloat" where
  "np_nanmean xs = np_divide (np_sum (not_nan xs)) (Fin (real (length (not_nan xs))))"

definition np_nanstd :: "npfloat list \<Rightarrow> npfloat" where
  "np_nanstd xs =
    (let avg = np_nanmean xs;
         sqr = map (\<lambda>x. np_multiply (np_subtract x avg) (np_subtract x avg)) (not_nan xs)
     in np_sqrt (np_divide (np_sum sqr) (Fin (real (length (not_nan xs))))))"

text \<open>
  Modelled from the spec: the constant \<^verbatim>\<open>TWOPI\<close> is imported from the module
  \<^verbatim>\<open>constants\<close>; the spec writes it \<open>2\<pi>\<close>.
\<close>

definition TWOPI :: real where
  "TWOPI = 2 * pi"

text \<open>Two-dimensional arrays are lists of rows.\<close>

definition mat_map :: "('a \<Rightarrow> 'b) \<Rightarrow> 'a list list \<Rightarrow> 'b list list" where
  "mat_map f m = map (map f) m"

definition mat_map2 :: "('a \<Rightarrow> 'b \<Rightarrow> 'c) \<Rightarrow> 'a list list \<Rightarrow> 'b list list \<Rightarrow> 'c list list" where
  "mat_map2 f m1 m2 = map2 (map2 f) m1 m2"

definition mat_const :: "nat \<Rightarrow> nat \<Rightarrow> 'a \<Rightarrow> 'a list list" where
  "mat_const r c x = replicate r (replicate c x)"

text \<open>
  \<^verbatim>\<open>v[np.newaxis, :] - v[:, np.newaxis]\<close>: the entry in row \<open>i\<close> and column \<open>j\<close> is
  \<open>v[j] - v[i]\<close>.
\<close>

definition pairwise_diff :: "real list \<Rightarrow> real list list" where
  "pairwise_diff v = map (\<lambda>vi. map (\<lambda>vj. vj - vi) v) v"

subsection \<open>Measurement files and result panels\<close>

text \<open>
  A TFS table as the loader supplies it: the headers that \<^verbatim>\<open>calculate_phase\<close>
  reads, and one row per BPM with the index label and the two phase columns.
\<close>

record tfs_row =
  NAME :: string
  MUX :: real
  MUY :: real

record tfs_file =
  Q1 :: real
  Q1RMS :: real
  Q2 :: real
  Q2RMS :: real
  rows :: "tfs_row list"

text \<open>The only column names that \<^verbatim>\<open>get_phases\<close> forms are \<^verbatim>\<open>MUX\<close> and \<^verbatim>\<open>MUY\<close>.\<close>

definition column :: "tfs_file \<Rightarrow> string \<Rightarrow> real list" where
  "column file_tfs plane_mu = map (if plane_mu = ''MUX'' then MUX else MUY) (rows file_tfs)"

definition tfs_index :: "tfs_file \<Rightarrow> string list" where
  "tfs_index file_tfs = map NAME (rows file_tfs)"

text \<open>
  \<^verbatim>\<open>file_tfs.loc[labels, plane_mu]\<close> as an array. A label that the file does not
  have is outside the precondition of the builders (pandas reports it with a
  \<^verbatim>\<open>KeyError\<close> or, in old versions and when some label is found, with a warning);
  the model returns \<open>None\<close> there.
\<close>

definition tfs_at :: "tfs_file \<Rightarrow> string \<Rightarrow> string \<Rightarrow> real option" where
  "tfs_at file_tfs plane_mu label = map_of (zip (tfs_index file_tfs) (column file_tfs plane_mu)) label"

definition loc :: "tfs_file \<Rightarrow> string list \<Rightarrow> string \<Rightarrow> real list option" where
  "loc file_tfs labels plane_mu = those (map (tfs_at file_tfs plane_mu) labels)"

text \<open>The four items of the \<^verbatim>\<open>pd.Panel\<close>, each a matrix over the BPM index.\<close>

record panel =
  MODEL :: "real list list"
  MEAS :: "npfloat list list"
  ERRMEAS :: "npfloat list list"
  NFILES :: "nat list list"

subsection \<open>Circular mean and standard deviation (direct form)\<close>

definition np_mean :: "real list \<Rightarrow> real" where
  "np_mean xs = sum_list xs / real (length xs)"

text \<open>
  \<^verbatim>\<open>calc_phase_mean(phase0, norm)\<close>, for a sample that is not empty and
  \<^verbatim>\<open>norm\<close> 1 or \<open>2\<pi>\<close> as the docstring requires. On an empty sample both means are
  \<^verbatim>\<open>nan\<close>, and so is the result.
\<close>

definition calc_phase_mean :: "real list \<Rightarrow> real \<Rightarrow> npfloat" where
  "calc_phase_mean phase00 norm_p =
    (if phase00 = [] then NaN
     else
      (let phase0 = map (\<lambda>x. py_mod x norm_p) phase00;
           phase1 = map (\<lambda>x. py_mod (x + 0.5 * norm_p) norm_p - 0.5 * norm_p) phase0;
           phase0ave = np_mean phase0;
           phase1ave = np_mean phase1;
           mod_phase0std = sum_list (map (\<lambda>x. \<bar>x - phase0ave\<bar>) phase0);
           mod_phase1std = sum_list (map (\<lambda>x. \<bar>x - phase1ave\<bar>) phase1)
       in if mod_phase0std < mod_phase1std then Fin phase0ave
          else Fin (py_mod phase1ave norm_p)))"

text \<open>
  \<^verbatim>\<open>calc_phase_std(phase0, norm)\<close>. The means are only used when there is more
  than one sample.
\<close>

definition calc_phase_std :: "real list \<Rightarrow> real \<Rightarrow> real" where
  "calc_phase_std phase00 norm_p =
    (let phase0 = map (\<lambda>x. py_mod x norm_p) phase00;
         phase1 = map (\<lambda>x. py_mod (x + 0.5 * norm_p) norm_p - 0.5 * norm_p) phase0;
         phase0ave = np_mean phase0;
         phase1ave = np_mean phase1;
         phase0std_sq = sum_list (map (\<lambda>x. (x - phase0ave)\<^sup>2) phase0);
         phase1std_sq = sum_list (map (\<lambda>x. (x - phase1ave)\<^sup>2) phase1);
         min_phase_std = min phase0std_sq phase1std_sq
     in if length phase0 > 1
        then sqrt (min_phase_std / (real (length phase0) - 1))
               * t_value_correction (int (length phase0) - 1)
        else 0)"

subsection \<open>The Intersection builder\<close>

text \<open>\<^verbatim>\<open>phases_meas[k_lastbpm+1:] += tune_q * bd\<close>.\<close>

definition add_from :: "nat \<Rightarrow> real \<Rightarrow> real list \<Rightarrow> real list" where
  "add_from k d v = take k v @ map (\<lambda>x. x + d) (drop k v)"

text \<open>
  The loop over the measurement files of \<^verbatim>\<open>_get_phases_intersection\<close>, with the
  two running sums as its state. The array \<^verbatim>\<open>phase_matr_meas\<close> is written and
  never read, so it is left out.
\<close>

fun intersection_loop ::
  "string list \<Rightarrow> real \<Rightarrow> string \<Rightarrow> nat \<Rightarrow> real \<Rightarrow> tfs_file list
    \<Rightarrow> real list list \<times> real list list \<Rightarrow> (real list list \<times> real list list) option"
where
  "intersection_loop bpm bd plane_mu k_lastbpm tune_q [] acc = Some acc"
| "intersection_loop bpm bd plane_mu k_lastbpm tune_q (file_tfs # Files)
      (sin_phase_matr_meas, cos_phase_matr_meas) =
    (case loc file_tfs bpm plane_mu of
       None \<Rightarrow> None
     | Some col \<Rightarrow>
        (let phases_meas = add_from (k_lastbpm + 1) (tune_q * bd) (map (\<lambda>x. bd * x) col);
             meas_matr = pairwise_diff phases_meas
         in intersection_loop bpm bd plane_mu k_lastbpm tune_q Files
              (mat_map2 (+) sin_phase_matr_meas (mat_map (\<lambda>d. sin (d * TWOPI)) meas_matr),
               mat_map2 (+) cos_phase_matr_meas (mat_map (\<lambda>d. cos (d * TWOPI)) meas_matr))))"

text \<open>
  \<^verbatim>\<open>_get_phases_intersection\<close>. The module-level flag \<^verbatim>\<open>OPTIMISTIC\<close> is a
  parameter of the model. The arrays of the sums have \<^verbatim>\<open>number_commonbpms\<close> rows and
  columns and the matrices of the files as many as the index has BPMs; the only call
  passes the length of the index, and with any other number numpy raises on the
  shapes (\<open>None\<close>). The sums, \<open>R\<close> and \<open>ERRMEAS\<close> are formed in exact arithmetic here
  and in double precision by the program, where every sine, cosine and sum is
  rounded. The formulas are the same; the values differ where \<open>R\<close> is 0 or 1 exactly:
  the program has in general a number next to 0 there, with a finite \<open>ERRMEAS\<close>, and a
  number next to 1, with an \<open>ERRMEAS\<close> that is small or \<^verbatim>\<open>nan\<close>.
\<close>

definition get_phases_intersection ::
  "bool \<Rightarrow> string list \<Rightarrow> nat \<Rightarrow> real \<Rightarrow> string \<Rightarrow> tfs_file \<Rightarrow> tfs_file list \<Rightarrow> nat \<Rightarrow> real
    \<Rightarrow> panel option"
where
  "get_phases_intersection OPTIMISTIC bpm number_commonbpms bd plane_mu mad_twiss Files
      k_lastbpm tune_q =
    (if number_commonbpms \<noteq> length bpm then None else
     case loc mad_twiss bpm plane_mu of
       None \<Rightarrow> None
     | Some phases_mdl \<Rightarrow>
        (case intersection_loop bpm bd plane_mu k_lastbpm tune_q Files
                (mat_const number_commonbpms number_commonbpms 0,
                 mat_const number_commonbpms number_commonbpms 0) of
           None \<Rightarrow> None
         | Some (sin_phase_matr_meas, cos_phase_matr_meas) \<Rightarrow>
            (let len_Files = Fin (real (length Files));
                 R = mat_map2
                       (\<lambda>s c. np_divide (Fin (sqrt (s * s + c * c))) len_Files)
                       sin_phase_matr_meas cos_phase_matr_meas
             in Some \<lparr>
                  MODEL = mat_map (\<lambda>d. py_mod d 1) (pairwise_diff phases_mdl),
                  MEAS = mat_map2
                       (\<lambda>s c. np_remainder
                                 (np_divide
                                    (np_arctan2 (np_divide (Fin s) len_Files)
                                                (np_divide (Fin c) len_Files))
                                    (Fin TWOPI)) 1)
                       sin_phase_matr_meas cos_phase_matr_meas,
                  ERRMEAS =
                    (if OPTIMISTIC
                     then mat_map (\<lambda>r. np_divide (np_sqrt (np_multiply (Fin (- 2)) (np_log r)))
                                          (np_sqrt len_Files)) R
                     else mat_map (\<lambda>r. np_sqrt (np_multiply (Fin (- 2)) (np_log r))) R),
                  NFILES = mat_const (length bpm) (length bpm) (length Files) \<rparr>)))"

subsection \<open>The Union builder\<close>

fun index_of :: "'a list \<Rightarrow> 'a \<Rightarrow> nat option" where
  "index_of [] a = None"
| "index_of (x # xs) a = (if x = a then Some 0 else map_option Suc (index_of xs a))"

text \<open>
  The per-file frame \<^verbatim>\<open>pd.DataFrame(data=np.where(meas_matr > 0, meas_matr,
  meas_matr + 1.0), index=file_tfs.index, columns=file_tfs.index)\<close>: its labels
  and its data.
\<close>

definition union_frame :: "real \<Rightarrow> string \<Rightarrow> tfs_file \<Rightarrow> string list \<times> real list list" where
  "union_frame bd plane_mu file_tfs =
    (let phases_meas = map (\<lambda>x. bd * x) (column file_tfs plane_mu);
         meas_matr = pairwise_diff phases_meas
     in (tfs_index file_tfs, mat_map (\<lambda>d. if d > 0 then d else d + 1.0) meas_matr))"

text \<open>
  \<^verbatim>\<open>phase_matr_meas.loc[i] = frame\<close>: the frame is aligned with the axes of the
  panel; a pair of labels that the frame does not have keeps the \<^verbatim>\<open>nan\<close> with
  which the panel was created.
\<close>

definition frame_at :: "string list \<times> real list list \<Rightarrow> string \<Rightarrow> string \<Rightarrow> npfloat" where
  "frame_at frame a b =
    (case (index_of (fst frame) a, index_of (fst frame) b) of
       (Some p, Some q) \<Rightarrow> Fin (snd frame ! p ! q)
     | _ \<Rightarrow> NaN)"

definition reindex :: "string list \<Rightarrow> string list \<times> real list list \<Rightarrow> npfloat list list" where
  "reindex bpm frame = map (\<lambda>a. map (\<lambda>b. frame_at frame a b) bpm) bpm"

text \<open>The entries of a stack of matrices along axis 0.\<close>

definition axis0 :: "'a list list list \<Rightarrow> nat \<Rightarrow> nat \<Rightarrow> 'a list" where
  "axis0 stack i j = map (\<lambda>m. m ! i ! j) stack"

definition over_pairs :: "nat \<Rightarrow> (nat \<Rightarrow> nat \<Rightarrow> 'a) \<Rightarrow> 'a list list" where
  "over_pairs n f = map (\<lambda>i. map (\<lambda>j. f i j) [0..<n]) [0..<n]"

text \<open>
  \<^verbatim>\<open>_get_phases_union\<close>. The labels of a file are taken to be unique, as the BPM
  names of a measurement are; \<^verbatim>\<open>k_lastbpm\<close> is a parameter that the function does not
  use (the line that adds the tune is commented out).
\<close>

definition get_phases_union ::
  "bool \<Rightarrow> string list \<Rightarrow> real \<Rightarrow> string \<Rightarrow> tfs_file \<Rightarrow> tfs_file list \<Rightarrow> nat \<Rightarrow> panel option"
where
  "get_phases_union OPTIMISTIC bpm bd plane_mu mad_twiss Files k_lastbpm =
    (case loc mad_twiss bpm plane_mu of
       None \<Rightarrow> None
     | Some phases_mdl \<Rightarrow>
        (let phase_matr_meas = map (\<lambda>file_tfs. reindex bpm (union_frame bd plane_mu file_tfs)) Files;
             n = length bpm;
             nfiles = (\<lambda>i j. length (not_nan (axis0 phase_matr_meas i j)))
         in Some \<lparr>
              MODEL = mat_map (\<lambda>d. py_mod d 1.0) (pairwise_diff phases_mdl),
              MEAS = over_pairs n (\<lambda>i j. np_remainder (np_nanmean (axis0 phase_matr_meas i j)) 1.0),
              ERRMEAS =
                (if OPTIMISTIC
                 then over_pairs n (\<lambda>i j.
                        np_multiply
                          (np_divide (np_nanstd (axis0 phase_matr_meas i j))
                                     (np_sqrt (Fin (real (nfiles i j)))))
                          (Fin (of_int (vec_t_value_correction (int (nfiles i j))))))
                 else over_pairs n (\<lambda>i j.
                        np_multiply (np_nanstd (axis0 phase_matr_meas i j))
                          (Fin (of_int (vec_t_value_correction (int (nfiles i j))))))),
              NFILES = over_pairs n nfiles \<rparr>))"

subsection \<open>Phases of one plane and the tunes\<close>

text \<open>
  What \<^verbatim>\<open>get_phases\<close> reads of the accelerator object and of the options. The
  class of the accelerator belongs to another package, so the result of
  \<^verbatim>\<open>get_k_first_BPM\<close> is a field.
\<close>

record accel =
  get_beam_direction :: real
  get_k_first_BPM :: "string list \<Rightarrow> nat"

record getllm_data =
  accelerator :: accel
  lhc_phase :: string
  union :: bool

text \<open>
  \<^verbatim>\<open>get_phases\<close>: the panel of the chosen builder, and \<^verbatim>\<open>muave\<close>. The flag
  \<^verbatim>\<open>OPTIMISTIC\<close> is passed on to the builders; the \<^verbatim>\<open>print\<close> is left out.
\<close>

definition get_phases ::
  "bool \<Rightarrow> getllm_data \<Rightarrow> tfs_file \<Rightarrow> tfs_file list \<Rightarrow> string list \<Rightarrow> real \<Rightarrow> string
    \<Rightarrow> (panel \<times> int) option"
where
  "get_phases OPTIMISTIC getllm_d mad_twiss Files bpm tune_q plane =
    (let acc = accelerator getllm_d;
         plane_mu = (if plane = ''H'' then ''MUX'' else ''MUY'');
         bd = get_beam_direction acc;
         number_commonbpms = length bpm;
         muave = 0;
         k_lastbpm = (if lhc_phase getllm_d = ''1'' then get_k_first_BPM acc bpm else length bpm);
         phase_advances =
           (if union getllm_d
            then get_phases_union OPTIMISTIC bpm bd plane_mu mad_twiss Files k_lastbpm
            else get_phases_intersection OPTIMISTIC bpm number_commonbpms bd plane_mu mad_twiss
                   Files k_lastbpm tune_q)
     in case phase_advances of None \<Rightarrow> None | Some pa \<Rightarrow> Some (pa, muave))"

text \<open>
  The tune of one plane from the headers of its files (the two passes over the files in
  \<^verbatim>\<open>calculate_phase\<close>, which differ in the header names only): the arrays
  \<^verbatim>\<open>q1_files\<close> and \<^verbatim>\<open>q1_inv_Var\<close>, and the quotient of the two sums. It is only
  evaluated on a list of files that is not empty.
\<close>

definition tune_of_files :: "(tfs_file \<Rightarrow> real) \<Rightarrow> (tfs_file \<Rightarrow> real) \<Rightarrow> tfs_file list \<Rightarrow> real" where
  "tune_of_files Q QRMS twiss_files =
    (let q1_files = map Q twiss_files;
         q1_inv_Var = map (\<lambda>twiss_file.
                        let q1rms = QRMS twiss_file;
                            q1rms = (if q1rms = 0 then 1000 else q1rms)
                        in 1.0 / q1rms\<^sup>2) twiss_files
     in sum_list (map2 (*) q1_files q1_inv_Var) / sum_list q1_inv_Var)"

record twiss_data =
  zero_dpp_x :: "tfs_file list"
  zero_dpp_y :: "tfs_file list"
  zero_dpp_commonbpms_x :: "string list"
  zero_dpp_commonbpms_y :: "string list"
  zero_dpp_unionbpms_x :: "string list"
  zero_dpp_unionbpms_y :: "string list"

text \<open>
  Modelled from the spec: \<^verbatim>\<open>has_zero_dpp_x\<close> and \<^verbatim>\<open>has_zero_dpp_y\<close> are methods of
  a class of another module; by the spec a plane has data when
  it has at least one file.
\<close>

definition has_zero_dpp_x :: "twiss_data \<Rightarrow> bool" where
  "has_zero_dpp_x twiss_d = (zero_dpp_x twiss_d \<noteq> [])"

definition has_zero_dpp_y :: "twiss_data \<Rightarrow> bool" where
  "has_zero_dpp_y twiss_d = (zero_dpp_y twiss_d \<noteq> [])"

text \<open>The fields of \<^verbatim>\<open>tune_d\<close> and \<^verbatim>\<open>phase_d\<close> that the tune section assigns.\<close>

record tune_data =
  q1 :: real
  q1f :: real
  mux :: int
  q2 :: real
  q2f :: real
  muy :: int

record phase_data =
  phase_advances_free_x :: "panel option"
  phase_advances_free_y :: "panel option"

text \<open>
  The section "Calculate tunes" of \<^verbatim>\<open>calculate_phase\<close>, one plane after the
  other, with \<^verbatim>\<open>tune_d\<close> and \<^verbatim>\<open>phase_d\<close> passed as state. The sections after
  it (compensation of the excitation, output) call other modules and assign none of
  \<^verbatim>\<open>q1\<close>, \<^verbatim>\<open>q2\<close>, \<^verbatim>\<open>mux\<close> and \<^verbatim>\<open>muy\<close>. The model of the measurement is a
  parameter. An exception of \<^verbatim>\<open>get_phases\<close> ends
  the function (\<open>None\<close>).
\<close>

definition calculate_phase_x ::
  "bool \<Rightarrow> getllm_data \<Rightarrow> twiss_data \<Rightarrow> tfs_file \<Rightarrow> phase_data \<times> tune_data
    \<Rightarrow> (phase_data \<times> tune_data) option"
where
  "calculate_phase_x OPTIMISTIC getllm_d twiss_d model_of_measurement st =
    (let (phase_d, tune_d) = st;
         bpmsx = (if union getllm_d then zero_dpp_unionbpms_x twiss_d
                  else zero_dpp_commonbpms_x twiss_d)
     in if has_zero_dpp_x twiss_d
        then
          (let q1' = tune_of_files Q1 Q1RMS (zero_dpp_x twiss_d)
           in case get_phases OPTIMISTIC getllm_d model_of_measurement (zero_dpp_x twiss_d)
                     bpmsx q1' ''H'' of
                None \<Rightarrow> None
              | Some (pa, mu) \<Rightarrow>
                  Some (phase_d\<lparr>phase_advances_free_x := Some pa\<rparr>,
                        tune_d\<lparr>q1 := q1', q1f := q1', mux := mu\<rparr>))
        else Some st)"

definition calculate_phase_y ::
  "bool \<Rightarrow> getllm_data \<Rightarrow> twiss_data \<Rightarrow> tfs_file \<Rightarrow> phase_data \<times> tune_data
    \<Rightarrow> (phase_data \<times> tune_data) option"
where
  "calculate_phase_y OPTIMISTIC getllm_d twiss_d model_of_measurement st =
    (let (phase_d, tune_d) = st;
         bpmsy = (if union getllm_d then zero_dpp_unionbpms_y twiss_d
                  else zero_dpp_commonbpms_y twiss_d)
     in if has_zero_dpp_y twiss_d
        then
          (let q2' = tune_of_files Q2 Q2RMS (zero_dpp_y twiss_d)
           in case get_phases OPTIMISTIC getllm_d model_of_measurement (zero_dpp_y twiss_d)
                     bpmsy q2' ''V'' of
                None \<Rightarrow> None
              | Some (pa, mu) \<Rightarrow>
                  Some (phase_d\<lparr>phase_advances_free_y := Some pa\<rparr>,
                        tune_d\<lparr>q2 := q2', q2f := q2', muy := mu\<rparr>))
        else Some st)"

definition calculate_phase ::
  "bool \<Rightarrow> getllm_data \<Rightarrow> twiss_data \<Rightarrow> tfs_file \<Rightarrow> tune_data
    \<Rightarrow> (phase_data \<times> tune_data) option"
where
  "calculate_phase OPTIMISTIC getllm_d twiss_d model_of_measurement tune_d =
    (case calculate_phase_x OPTIMISTIC getllm_d twiss_d model_of_measurement
            (\<lparr>phase_advances_free_x = None, phase_advances_free_y = None\<rparr>, tune_d) of
       None \<Rightarrow> None
     | Some st \<Rightarrow> calculate_phase_y OPTIMISTIC getllm_d twiss_d model_of_measurement st)"

subsection \<open>Auxiliary notions for the statements\<close>

text \<open>A matrix with \<open>n\<close> rows and \<open>n\<close> columns.\<close>

definition square :: "nat \<Rightarrow> 'a list list \<Rightarrow> bool" where
  "square n m \<longleftrightarrow> length m = n \<and> (\<forall>r \<in> set m. length r = n)"

text \<open>
  The phase of the BPM at position \<open>p\<close> of the index as the Intersection builder
  takes it from one file (beam direction applied, the tune added after the last BPM
  of the turn), and the difference of two such phases, not wrapped.
\<close>

definition meas_phase ::
  "real \<Rightarrow> string \<Rightarrow> nat \<Rightarrow> real \<Rightarrow> string list \<Rightarrow> tfs_file \<Rightarrow> nat \<Rightarrow> real"
where
  "meas_phase bd plane_mu k_lastbpm tune_q bpm file_tfs p =
    bd * the (tfs_at file_tfs plane_mu (bpm ! p)) + (if k_lastbpm < p then tune_q * bd else 0)"

definition meas_diff ::
  "real \<Rightarrow> string \<Rightarrow> nat \<Rightarrow> real \<Rightarrow> string list \<Rightarrow> tfs_file \<Rightarrow> nat \<Rightarrow> nat \<Rightarrow> real"
where
  "meas_diff bd plane_mu k_lastbpm tune_q bpm file_tfs i j =
    meas_phase bd plane_mu k_lastbpm tune_q bpm file_tfs j
    - meas_phase bd plane_mu k_lastbpm tune_q bpm file_tfs i"

text \<open>The sums of the sines and of the cosines of the differences over the files.\<close>

definition sum_sin ::
  "real \<Rightarrow> string \<Rightarrow> nat \<Rightarrow> real \<Rightarrow> string list \<Rightarrow> tfs_file list \<Rightarrow> nat \<Rightarrow> nat \<Rightarrow> real"
where
  "sum_sin bd plane_mu k_lastbpm tune_q bpm Files i j =
    (\<Sum>f\<leftarrow>Files. sin (2 * pi * meas_diff bd plane_mu k_lastbpm tune_q bpm f i j))"

definition sum_cos ::
  "real \<Rightarrow> string \<Rightarrow> nat \<Rightarrow> real \<Rightarrow> string list \<Rightarrow> tfs_file list \<Rightarrow> nat \<Rightarrow> nat \<Rightarrow> real"
where
  "sum_cos bd plane_mu k_lastbpm tune_q bpm Files i j =
    (\<Sum>f\<leftarrow>Files. cos (2 * pi * meas_diff bd plane_mu k_lastbpm tune_q bpm f i j))"

text \<open>The resultant length \<open>R\<close> of a pair.\<close>

definition resultant ::
  "real \<Rightarrow> string \<Rightarrow> nat \<Rightarrow> real \<Rightarrow> string list \<Rightarrow> tfs_file list \<Rightarrow> nat \<Rightarrow> nat \<Rightarrow> real"
where
  "resultant bd plane_mu k_lastbpm tune_q bpm Files i j =
    sqrt ((sum_sin bd plane_mu k_lastbpm tune_q bpm Files i j)\<^sup>2
          + (sum_cos bd plane_mu k_lastbpm tune_q bpm Files i j)\<^sup>2) / real (length Files)"

text \<open>Every BPM of the index has a row in the file.\<close>

definition covers :: "tfs_file \<Rightarrow> string list \<Rightarrow> bool" where
  "covers file_tfs bpm \<longleftrightarrow> set bpm \<subseteq> set (tfs_index file_tfs)"

text \<open>
  The entry of one file for a pair of BPM labels in the stack of the Union builder,
  said pointwise: missing when one of the two BPMs has no row in the file, and else
  the difference of the two phases with 1 added where it is not positive.
\<close>

definition wrapped_diff :: "real \<Rightarrow> string \<Rightarrow> tfs_file \<Rightarrow> string \<Rightarrow> string \<Rightarrow> npfloat" where
  "wrapped_diff bd plane_mu file_tfs a b =
    (case (tfs_at file_tfs plane_mu a, tfs_at file_tfs plane_mu b) of
       (Some x, Some y) \<Rightarrow> Fin (if bd * y - bd * x > 0 then bd * y - bd * x else bd * y - bd * x + 1)
     | _ \<Rightarrow> NaN)"

text \<open>The finite entries of a list of values, in order.\<close>

fun fin_values :: "npfloat list \<Rightarrow> real list" where
  "fin_values [] = []"
| "fin_values (Fin a # xs) = a # fin_values xs"
| "fin_values (x # xs) = fin_values xs"

text \<open>
  The samples of a pair in Union mode: the entries of the files in which both BPMs
  are present.
\<close>

definition union_samples ::
  "real \<Rightarrow> string \<Rightarrow> string list \<Rightarrow> tfs_file list \<Rightarrow> nat \<Rightarrow> nat \<Rightarrow> real list"
where
  "union_samples bd plane_mu bpm Files i j =
    fin_values (map (\<lambda>f. wrapped_diff bd plane_mu f (bpm ! i) (bpm ! j)) Files)"

text \<open>The standard deviation of a sample about its mean, with divisor \<open>n\<close>.\<close>

definition population_std :: "real list \<Rightarrow> real" where
  "population_std xs = sqrt ((\<Sum>x\<leftarrow>xs. (x - np_mean xs)\<^sup>2) / real (length xs))"

text \<open>A list whose entries are finite or \<^verbatim>\<open>nan\<close>.\<close>

definition fin_or_nan :: "npfloat list \<Rightarrow> bool" where
  "fin_or_nan xs \<longleftrightarrow> (\<forall>x \<in> set xs. x = NaN \<or> (\<exists>a. x = Fin a))"

text \<open>The weight of a file in the tune of a plane, as the spec words it.\<close>

definition weight :: "real \<Rightarrow> real" where
  "weight rms = 1 / (if rms = 0 then 1000 else rms)\<^sup>2"

text \<open>Reading one entry of the panel that a builder returns.\<close>

definition meas_at :: "panel option \<Rightarrow> nat \<Rightarrow> nat \<Rightarrow> npfloat option" where
  "meas_at r i j = map_option (\<lambda>pa. MEAS pa ! i ! j) r"

definition errmeas_at :: "panel option \<Rightarrow> nat \<Rightarrow> nat \<Rightarrow> npfloat option" where
  "errmeas_at r i j = map_option (\<lambda>pa. ERRMEAS pa ! i ! j) r"

subsection \<open>Sample inputs\<close>

text \<open>A file with two BPMs whose phases are \<open>a\<close> and \<open>b\<close> in both planes.\<close>

definition two_bpm_file :: "real \<Rightarrow> real \<Rightarrow> tfs_file" where
  "two_bpm_file a b =
    \<lparr>Q1 = 0.28, Q1RMS = 0.001, Q2 = 0.31, Q2RMS = 0.002,
     rows = [\<lparr>NAME = ''BPM1'', MUX = a, MUY = a\<rparr>, \<lparr>NAME = ''BPM2'', MUX = b, MUY = b\<rparr>]\<rparr>"

definition two_bpms :: "string list" where
  "two_bpms = [''BPM1'', ''BPM2'']"

text \<open>A file whose horizontal tune and RMS are given.\<close>

definition tune_file :: "real \<Rightarrow> real \<Rightarrow> tfs_file" where
  "tune_file q rms = (two_bpm_file 0 0)\<lparr>Q1 := q, Q1RMS := rms\<rparr>"

text \<open>Options with the correction of the phase jump switched on, at the first BPM.\<close>

definition sample_getllm_d :: "bool \<Rightarrow> getllm_data" where
  "sample_getllm_d u =
    \<lparr>accelerator = \<lparr>get_beam_direction = 1, get_k_first_BPM = (\<lambda>bpm. 0)\<rparr>,
     lhc_phase = ''1'', union = u\<rparr>"

definition sample_twiss_d :: twiss_data where
  "sample_twiss_d =
    \<lparr>zero_dpp_x = [two_bpm_file 0 (1/4)], zero_dpp_y = [],
     zero_dpp_commonbpms_x = two_bpms, zero_dpp_commonbpms_y = [],
     zero_dpp_unionbpms_x = two_bpms, zero_dpp_unionbpms_y = []\<rparr>"

section \<open>Properties\<close>

subsection \<open>Properties of the correction factor\<close>

lemma int_range_2_20:
  "2 \<le> (n::int) \<Longrightarrow> n \<le> 20 \<Longrightarrow>
    n = 2 \<or> n = 3 \<or> n = 4 \<or> n = 5 \<or> n = 6 \<or> n = 7 \<or> n = 8 \<or> n = 9 \<or> n = 10 \<or> n = 11
    \<or> n = 12 \<or> n = 13 \<or> n = 14 \<or> n = 15 \<or> n = 16 \<or> n = 17 \<or> n = 18 \<or> n = 19 \<or> n = 20"
  by arith

lemma correction_dict_defined:
  assumes "1 < n" "n \<le> 20"
  shows "map_of correction_dict n \<noteq> None"
proof -
  from assms have "2 \<le> n" "n \<le> 20" by simp_all
  from int_range_2_20 [OF this] show ?thesis
    by (elim disjE) (simp_all add: correction_dict_def)
qed

lemma t_value_correction_step:
  assumes "2 \<le> n" "n < 20"
  shows "t_value_correction (n + 1) < t_value_correction n"
proof -
  from assms have "2 \<le> n" "n \<le> 20" by simp_all
  from int_range_2_20 [OF this] assms(2) show ?thesis
    by (elim disjE) (simp_all add: t_value_correction_def correction_dict_def)
qed

lemma t_value_correction_decreasing:
  assumes "2 \<le> m" "m < n" "n \<le> 20"
  shows "t_value_correction n < t_value_correction m"
proof -
  have "m < k \<Longrightarrow> k \<le> 20 \<longrightarrow> t_value_correction k < t_value_correction m" for k
  proof (induction k rule: int_gr_induct)
    case base
    from t_value_correction_step [of m] assms(1) show ?case by auto
  next
    case (step i)
    show ?case
    proof
      assume "i + 1 \<le> 20"
      with step assms(1) have "t_value_correction i < t_value_correction m" and "2 \<le> i" "i < 20"
        by simp_all
      with t_value_correction_step [of i] show "t_value_correction (i + 1) < t_value_correction m"
        by simp
    qed
  qed
  with assms show ?thesis by blast
qed

lemma t_value_correction_range:
  "1 \<le> t_value_correction n \<and> t_value_correction n < 2"
proof (cases "2 \<le> n \<and> n \<le> 20")
  case True
  then have "2 \<le> n" "n \<le> 20" by simp_all
  from int_range_2_20 [OF this] show ?thesis
    by (elim disjE) (simp_all add: t_value_correction_def correction_dict_def)
next
  case False
  then show ?thesis by (auto simp: t_value_correction_def)
qed

text \<open>
  Claim C1, as amended. The factor is the table value for every integer argument in
  2..20, with \<open>t(2) = 1.8394733927562799\<close> and \<open>t(20) = 1.0276944692596461\<close> at the two
  ends of the table, it decreases strictly over 2..20, and it is exactly 1 for every
  argument that is 1 or below (so \<open>t(0) = 1\<close> and \<open>t(1) = 1\<close>) or above 20 (so \<open>t(25) = 1\<close>).
\<close>

theorem t_value_correction_table:
  "t_value_correction 2 = 1.8394733927562799
   \<and> t_value_correction 20 = 1.0276944692596461
   \<and> t_value_correction 0 = 1
   \<and> t_value_correction 1 = 1
   \<and> t_value_correction 25 = 1
   \<and> (\<forall>n. 2 \<le> n \<and> n \<le> 20 \<longrightarrow> map_of correction_dict n = Some (t_value_correction n))
   \<and> (\<forall>m n. 2 \<le> m \<and> m < n \<and> n \<le> 20 \<longrightarrow> t_value_correction n < t_value_correction m)
   \<and> (\<forall>n. n \<le> 1 \<or> 20 < n \<longrightarrow> t_value_correction n = 1)"
proof -
  have ends: "t_value_correction 2 = 1.8394733927562799"
    "t_value_correction 20 = 1.0276944692596461"
    "t_value_correction 0 = 1" "t_value_correction 1 = 1" "t_value_correction 25 = 1"
    by (simp_all add: t_value_correction_def correction_dict_def)
  have table: "map_of correction_dict n = Some (t_value_correction n)"
    if "2 \<le> n \<and> n \<le> 20" for n
  proof -
    from that correction_dict_defined [of n] obtain t where "map_of correction_dict n = Some t"
      by fastforce
    with that show ?thesis by (simp add: t_value_correction_def)
  qed
  have outside: "t_value_correction n = 1" if "n \<le> 1 \<or> 20 < n" for n
    using that by (auto simp: t_value_correction_def)
  from ends table outside t_value_correction_decreasing show ?thesis
    by blast
qed

theorem t_value_correction_table_witness:
  "map_of correction_dict 5 = Some (t_value_correction 5)
   \<and> t_value_correction 7 < t_value_correction 3
   \<and> t_value_correction 21 = 1 \<and> t_value_correction (- 4) = 1"
proof -
  have h1: "(2::int) \<le> 5 \<and> (5::int) \<le> 20" by simp
  have h2: "(2::int) \<le> 3 \<and> (3::int) < 7 \<and> (7::int) \<le> 20" by simp
  have h3: "(21::int) \<le> 1 \<or> 20 < (21::int)" by simp
  have h4: "(- 4::int) \<le> 1 \<or> 20 < (- 4::int)" by simp
  from t_value_correction_table h1 h2 h3 h4 show ?thesis by blast
qed

text \<open>
  The literal reference values of claim C1 as stated do not hold: the argument 1 is
  outside the guard \<^verbatim>\<open>num > 1\<close>, and the entry for 19 is not the last entry of the
  table.
\<close>

theorem t_value_correction_literals_counterexample:
  "\<not> (t_value_correction 1 = 1.8394733927562799
      \<and> t_value_correction 19 = 1.0276944692596461)"
  by (simp add: t_value_correction_def correction_dict_def)

subsection \<open>Lists, matrices and lookups\<close>

lemma those_Some_iff: "those xs = Some ys \<longleftrightarrow> xs = map Some ys"
  by (induction xs arbitrary: ys) (auto split: option.splits)

lemma tfs_at_Some:
  assumes "b \<in> set (tfs_index f)"
  shows "\<exists>x. tfs_at f plane_mu b = Some x"
proof -
  have "length (tfs_index f) = length (column f plane_mu)"
    by (simp add: tfs_index_def column_def)
  with assms have "b \<in> dom (map_of (zip (tfs_index f) (column f plane_mu)))"
    by (simp add: dom_map_of_zip)
  then show ?thesis by (auto simp: tfs_at_def)
qed

lemma loc_Some:
  assumes "set labels \<subseteq> set (tfs_index f)"
  shows "loc f labels plane_mu = Some (map (\<lambda>b. the (tfs_at f plane_mu b)) labels)"
proof -
  have "map (tfs_at f plane_mu) labels = map Some (map (\<lambda>b. the (tfs_at f plane_mu b)) labels)"
    using assms tfs_at_Some [of _ f plane_mu] by (auto simp: subset_iff)
  then show ?thesis by (simp add: loc_def those_Some_iff)
qed

lemma add_from_nth:
  "p < length v \<Longrightarrow> add_from k d v ! p = v ! p + (if k \<le> p then d else 0)"
  by (auto simp: add_from_def nth_append)

lemma length_add_from: "length (add_from k d v) = length v"
  by (simp add: add_from_def)

lemma pairwise_diff_nth:
  "i < length v \<Longrightarrow> j < length v \<Longrightarrow> pairwise_diff v ! i ! j = v ! j - v ! i"
  by (simp add: pairwise_diff_def)

lemma square_pairwise_diff: "square (length v) (pairwise_diff v)"
  by (auto simp: square_def pairwise_diff_def)

lemma square_mat_map: "square n m \<Longrightarrow> square n (mat_map f m)"
  by (auto simp: square_def mat_map_def)

lemma square_mat_const: "square n (mat_const n n x)"
  by (auto simp: square_def mat_const_def)

lemma square_mat_map2:
  assumes "square n a" "square n b"
  shows "square n (mat_map2 f a b)"
proof -
  have "length r = n" if "r \<in> set (map2 (map2 f) a b)" for r
  proof -
    from that obtain x y where "(x, y) \<in> set (zip a b)" and r: "r = map2 f x y"
      by auto
    then have "x \<in> set a" "y \<in> set b"
      by (auto dest: set_zip_leftD set_zip_rightD)
    with assms r show ?thesis by (simp add: square_def)
  qed
  with assms show ?thesis by (simp add: square_def mat_map2_def)
qed

lemma mat_map_nth:
  "square n m \<Longrightarrow> i < n \<Longrightarrow> j < n \<Longrightarrow> mat_map f m ! i ! j = f (m ! i ! j)"
  by (simp add: square_def mat_map_def)

lemma mat_map2_nth:
  "square n a \<Longrightarrow> square n b \<Longrightarrow> i < n \<Longrightarrow> j < n
    \<Longrightarrow> mat_map2 f a b ! i ! j = f (a ! i ! j) (b ! i ! j)"
  by (simp add: square_def mat_map2_def)

lemma mat_const_nth: "i < n \<Longrightarrow> j < n \<Longrightarrow> mat_const n n x ! i ! j = x"
  by (simp add: mat_const_def)

lemma over_pairs_nth: "i < n \<Longrightarrow> j < n \<Longrightarrow> over_pairs n f ! i ! j = f i j"
  by (simp add: over_pairs_def)

subsection \<open>The sums of the Intersection builder\<close>

lemma intersection_loop_sums:
  assumes "\<forall>f \<in> set Files. covers f bpm"
    and "square (length bpm) S0" "square (length bpm) C0"
  shows "\<exists>S C. intersection_loop bpm bd plane_mu k tune_q Files (S0, C0) = Some (S, C)
      \<and> square (length bpm) S \<and> square (length bpm) C
      \<and> (\<forall>i < length bpm. \<forall>j < length bpm.
            S ! i ! j = S0 ! i ! j + (\<Sum>f\<leftarrow>Files. sin (meas_diff bd plane_mu k tune_q bpm f i j * TWOPI))
          \<and> C ! i ! j = C0 ! i ! j + (\<Sum>f\<leftarrow>Files. cos (meas_diff bd plane_mu k tune_q bpm f i j * TWOPI)))"
  using assms
proof (induction Files arbitrary: S0 C0)
  case Nil
  then show ?case by simp
next
  case (Cons f Files)
  let ?n = "length bpm"
  let ?col = "map (\<lambda>b. the (tfs_at f plane_mu b)) bpm"
  let ?ph = "add_from (k + 1) (tune_q * bd) (map (\<lambda>x. bd * x) ?col)"
  let ?M = "pairwise_diff ?ph"
  let ?S1 = "mat_map2 (+) S0 (mat_map (\<lambda>d. sin (d * TWOPI)) ?M)"
  let ?C1 = "mat_map2 (+) C0 (mat_map (\<lambda>d. cos (d * TWOPI)) ?M)"
  from Cons.prems have present: "set bpm \<subseteq> set (tfs_index f)" by (simp add: covers_def)
  have len: "length ?ph = ?n" by (simp add: length_add_from)
  have sqM: "square ?n ?M" using square_pairwise_diff [of ?ph] len by simp
  have sq1: "square ?n ?S1" "square ?n ?C1"
    using Cons.prems sqM by (simp_all add: square_mat_map2 square_mat_map)
  have M: "?M ! i ! j = meas_diff bd plane_mu k tune_q bpm f i j" if "i < ?n" "j < ?n" for i j
    using that len by (simp add: pairwise_diff_nth add_from_nth length_add_from meas_diff_def meas_phase_def Suc_le_eq)
  have step: "intersection_loop bpm bd plane_mu k tune_q (f # Files) (S0, C0)
      = intersection_loop bpm bd plane_mu k tune_q Files (?S1, ?C1)"
    by (simp add: loc_Some [OF present] Let_def)
  from Cons.prems have rest: "\<forall>f \<in> set Files. covers f bpm" by simp
  from Cons.IH [OF rest sq1] obtain S C where
    res: "intersection_loop bpm bd plane_mu k tune_q Files (?S1, ?C1) = Some (S, C)"
    and sq: "square ?n S" "square ?n C"
    and sums: "\<forall>i < ?n. \<forall>j < ?n.
            S ! i ! j = ?S1 ! i ! j + (\<Sum>f\<leftarrow>Files. sin (meas_diff bd plane_mu k tune_q bpm f i j * TWOPI))
          \<and> C ! i ! j = ?C1 ! i ! j + (\<Sum>f\<leftarrow>Files. cos (meas_diff bd plane_mu k tune_q bpm f i j * TWOPI))"
    by blast
  have "S ! i ! j = S0 ! i ! j + (\<Sum>f\<leftarrow>f # Files. sin (meas_diff bd plane_mu k tune_q bpm f i j * TWOPI))
      \<and> C ! i ! j = C0 ! i ! j + (\<Sum>f\<leftarrow>f # Files. cos (meas_diff bd plane_mu k tune_q bpm f i j * TWOPI))"
    if ij: "i < ?n" "j < ?n" for i j
  proof -
    have "?S1 ! i ! j = S0 ! i ! j + mat_map (\<lambda>d. sin (d * TWOPI)) ?M ! i ! j"
      by (rule mat_map2_nth [OF Cons.prems(2) square_mat_map [OF sqM] ij])
    also have "mat_map (\<lambda>d. sin (d * TWOPI)) ?M ! i ! j = sin (?M ! i ! j * TWOPI)"
      by (rule mat_map_nth [OF sqM ij])
    finally have s: "?S1 ! i ! j = S0 ! i ! j + sin (meas_diff bd plane_mu k tune_q bpm f i j * TWOPI)"
      by (simp only: M [OF ij])
    have "?C1 ! i ! j = C0 ! i ! j + mat_map (\<lambda>d. cos (d * TWOPI)) ?M ! i ! j"
      by (rule mat_map2_nth [OF Cons.prems(3) square_mat_map [OF sqM] ij])
    also have "mat_map (\<lambda>d. cos (d * TWOPI)) ?M ! i ! j = cos (?M ! i ! j * TWOPI)"
      by (rule mat_map_nth [OF sqM ij])
    finally have c: "?C1 ! i ! j = C0 ! i ! j + cos (meas_diff bd plane_mu k tune_q bpm f i j * TWOPI)"
      by (simp only: M [OF ij])
    from s c sums ij show ?thesis by simp
  qed
  with step res sq show ?case by auto
qed

lemma py_mod_1: "py_mod x 1 = frac x"
  by (simp add: py_mod_def frac_def)

lemma intersection_entry:
  assumes files: "\<forall>f \<in> set Files. covers f bpm"
    and mdl: "covers mad_twiss bpm"
    and ij: "i < length bpm" "j < length bpm"
  shows "\<exists>pa. get_phases_intersection OPTIMISTIC bpm (length bpm) bd plane_mu mad_twiss Files k tune_q
          = Some pa
      \<and> MEAS pa ! i ! j =
          np_remainder
            (np_divide
               (np_arctan2
                  (np_divide (Fin (sum_sin bd plane_mu k tune_q bpm Files i j)) (Fin (real (length Files))))
                  (np_divide (Fin (sum_cos bd plane_mu k tune_q bpm Files i j)) (Fin (real (length Files)))))
               (Fin TWOPI)) 1
      \<and> ERRMEAS pa ! i ! j =
          (let r = np_divide
                     (Fin (sqrt ((sum_sin bd plane_mu k tune_q bpm Files i j)\<^sup>2
                                 + (sum_cos bd plane_mu k tune_q bpm Files i j)\<^sup>2)))
                     (Fin (real (length Files)));
               e = np_sqrt (np_multiply (Fin (- 2)) (np_log r))
           in if OPTIMISTIC then np_divide e (np_sqrt (Fin (real (length Files)))) else e)
      \<and> NFILES pa ! i ! j = length Files"
proof -
  let ?n = "length bpm"
  from intersection_loop_sums [OF files square_mat_const [of _ 0] square_mat_const [of _ 0],
      where bd = bd and plane_mu = plane_mu and k = k and tune_q = tune_q]
  obtain S C where
    loop: "intersection_loop bpm bd plane_mu k tune_q Files (mat_const ?n ?n 0, mat_const ?n ?n 0)
            = Some (S, C)"
    and sq: "square ?n S" "square ?n C"
    and sums: "\<forall>i < ?n. \<forall>j < ?n.
        S ! i ! j = mat_const ?n ?n 0 ! i ! j
            + (\<Sum>f\<leftarrow>Files. sin (meas_diff bd plane_mu k tune_q bpm f i j * TWOPI))
      \<and> C ! i ! j = mat_const ?n ?n 0 ! i ! j
            + (\<Sum>f\<leftarrow>Files. cos (meas_diff bd plane_mu k tune_q bpm f i j * TWOPI))"
    by blast
  have S: "S ! i ! j = sum_sin bd plane_mu k tune_q bpm Files i j"
    and C: "C ! i ! j = sum_cos bd plane_mu k tune_q bpm Files i j"
    using sums ij by (simp_all add: mat_const_nth sum_sin_def sum_cos_def TWOPI_def mult.commute)
  from mdl have "loc mad_twiss bpm plane_mu = Some (map (\<lambda>b. the (tfs_at mad_twiss plane_mu b)) bpm)"
    by (simp add: covers_def loc_Some)
  with loop show ?thesis
    using ij sq
    by (simp add: get_phases_intersection_def Let_def mat_map2_nth [where n = ?n]
        mat_map_nth [where n = ?n] square_mat_map2 mat_const_nth S C power2_eq_square)
qed

lemma cis_sum_list:
  "Complex (\<Sum>x\<leftarrow>xs. cos (g x)) (\<Sum>x\<leftarrow>xs. sin (g x)) = (\<Sum>x\<leftarrow>xs. cis (g x))"
  by (induction xs) (simp_all add: complex_eq_iff zero_complex.code)

lemma cmod_sum_list_cis: "cmod (\<Sum>x\<leftarrow>xs. cis (g x)) \<le> real (length xs)"
proof (induction xs)
  case Nil
  then show ?case by simp
next
  case (Cons x xs)
  have "cmod (cis (g x) + (\<Sum>x\<leftarrow>xs. cis (g x))) \<le> cmod (cis (g x)) + cmod (\<Sum>x\<leftarrow>xs. cis (g x))"
    by (rule norm_triangle_ineq)
  with Cons show ?case by simp
qed

lemma sqrt_sums_le_length:
  "sqrt ((\<Sum>x\<leftarrow>xs. sin (g x))\<^sup>2 + (\<Sum>x\<leftarrow>xs. cos (g x))\<^sup>2) \<le> real (length xs)"
proof -
  have "sqrt ((\<Sum>x\<leftarrow>xs. sin (g x))\<^sup>2 + (\<Sum>x\<leftarrow>xs. cos (g x))\<^sup>2)
      = cmod (Complex (\<Sum>x\<leftarrow>xs. cos (g x)) (\<Sum>x\<leftarrow>xs. sin (g x)))"
    by (simp add: cmod_def add.commute)
  also have "\<dots> \<le> real (length xs)"
    by (simp only: cis_sum_list cmod_sum_list_cis)
  finally show ?thesis .
qed

lemma resultant_bounds:
  assumes "Files \<noteq> []"
  shows "0 \<le> resultant bd plane_mu k tune_q bpm Files i j"
    and "resultant bd plane_mu k tune_q bpm Files i j \<le> 1"
proof -
  from assms have N: "0 < real (length Files)" by simp
  show "0 \<le> resultant bd plane_mu k tune_q bpm Files i j"
    by (simp add: resultant_def)
  have "sqrt ((sum_sin bd plane_mu k tune_q bpm Files i j)\<^sup>2
          + (sum_cos bd plane_mu k tune_q bpm Files i j)\<^sup>2) \<le> real (length Files)"
    unfolding sum_sin_def sum_cos_def by (rule sqrt_sums_le_length)
  with N show "resultant bd plane_mu k tune_q bpm Files i j \<le> 1"
    by (simp add: resultant_def)
qed

lemma errmeas_positive:
  assumes N: "0 < N" and R: "0 < s / N" "s / N \<le> 1"
  shows "(let r = np_divide (Fin s) (Fin N);
              e = np_sqrt (np_multiply (Fin (- 2)) (np_log r))
          in if OPTIMISTIC then np_divide e (np_sqrt (Fin N)) else e)
       = Fin (if OPTIMISTIC then sqrt (- 2 * ln (s / N)) / sqrt N else sqrt (- 2 * ln (s / N)))"
proof -
  from R have "ln (s / N) \<le> 0" by simp
  then have "0 \<le> - 2 * ln (s / N)" by simp
  with N R show ?thesis by (simp add: Let_def)
qed

lemma errmeas_zero:
  assumes N: "0 < N" and R: "s / N = 0"
  shows "(let r = np_divide (Fin s) (Fin N);
              e = np_sqrt (np_multiply (Fin (- 2)) (np_log r))
          in if OPTIMISTIC then np_divide e (np_sqrt (Fin N)) else e) = PInf"
  using assms by (simp add: Let_def)

lemma two_bpm_file_tfs_at:
  "tfs_at (two_bpm_file a b) ''MUX'' ''BPM1'' = Some a"
  "tfs_at (two_bpm_file a b) ''MUX'' ''BPM2'' = Some b"
  "tfs_at (two_bpm_file a b) ''MUY'' ''BPM1'' = Some a"
  "tfs_at (two_bpm_file a b) ''MUY'' ''BPM2'' = Some b"
  by (simp_all add: tfs_at_def two_bpm_file_def tfs_index_def column_def)

lemma two_bpm_file_covers: "covers (two_bpm_file a b) two_bpms"
  by (simp add: covers_def two_bpm_file_def tfs_index_def two_bpms_def)

lemma meas_diff_two_bpm_file:
  "meas_diff bd plane_mu k tune_q two_bpms (two_bpm_file a b) 0 (Suc 0)
    = bd * b + (if k < 1 then tune_q * bd else 0) - bd * a"
  "meas_diff bd plane_mu k tune_q two_bpms (two_bpm_file a b) (Suc 0) 0
    = bd * a - (bd * b + (if k < 1 then tune_q * bd else 0))"
  by (simp_all add: meas_diff_def meas_phase_def two_bpms_def tfs_at_def two_bpm_file_def
      tfs_index_def column_def)

lemma sums_quarter:
  "sum_sin 1 ''MUX'' 2 0.28 two_bpms [two_bpm_file 0 0, two_bpm_file 0 (1/4)] 0 (Suc 0) = 1"
  "sum_cos 1 ''MUX'' 2 0.28 two_bpms [two_bpm_file 0 0, two_bpm_file 0 (1/4)] 0 (Suc 0) = 1"
  by (simp_all add: sum_sin_def sum_cos_def meas_diff_two_bpm_file)

subsection \<open>The Intersection builder\<close>

text \<open>
  Claim C3. With \<open>N \<ge> 1\<close> files that all have every BPM of the index, the Intersection
  builder returns a panel, and for every pair \<open>(i, j)\<close>: \<open>MEAS\<close> is
  \<open>atan2(\<Sigma>sin / N, \<Sigma>cos / N) / 2\<pi>\<close> taken modulo 1, where the sums run over the sines and
  cosines of \<open>2\<pi>\<close> times the unwrapped difference of each file; the resultant length
  \<open>R = sqrt(\<Sigma>sin\<^sup>2 + \<Sigma>cos\<^sup>2) / N\<close> is at most 1; \<open>ERRMEAS\<close> is \<open>sqrt(-2 ln R)\<close>, divided by
  \<open>sqrt N\<close> exactly when the flag for optimistic error bars is set (for \<open>R = 0\<close> the
  logarithm is \<open>-\<infinity>\<close> and the entry is \<open>+\<infinity>\<close>); and \<open>NFILES\<close> is \<open>N\<close>.
\<close>

theorem intersection_formulas:
  assumes "Files \<noteq> []"
    and "\<forall>f \<in> set Files. covers f bpm"
    and "covers mad_twiss bpm"
    and "i < length bpm" "j < length bpm"
  shows "\<exists>pa. get_phases_intersection OPTIMISTIC bpm (length bpm) bd plane_mu mad_twiss Files
                k_lastbpm tune_q = Some pa
      \<and> MEAS pa ! i ! j =
          Fin (frac (arctan2 (sum_sin bd plane_mu k_lastbpm tune_q bpm Files i j / real (length Files))
                             (sum_cos bd plane_mu k_lastbpm tune_q bpm Files i j / real (length Files))
                     / (2 * pi)))
      \<and> resultant bd plane_mu k_lastbpm tune_q bpm Files i j \<le> 1
      \<and> (0 < resultant bd plane_mu k_lastbpm tune_q bpm Files i j \<longrightarrow>
           ERRMEAS pa ! i ! j =
             Fin (if OPTIMISTIC
                  then sqrt (- 2 * ln (resultant bd plane_mu k_lastbpm tune_q bpm Files i j))
                         / sqrt (real (length Files))
                  else sqrt (- 2 * ln (resultant bd plane_mu k_lastbpm tune_q bpm Files i j))))
      \<and> (resultant bd plane_mu k_lastbpm tune_q bpm Files i j = 0 \<longrightarrow>
           ERRMEAS pa ! i ! j = PInf)
      \<and> NFILES pa ! i ! j = length Files"
proof -
  let ?N = "real (length Files)"
  let ?R = "resultant bd plane_mu k_lastbpm tune_q bpm Files i j"
  from assms(1) have N: "0 < ?N" by simp
  from intersection_entry [OF assms(2-5), of OPTIMISTIC bd plane_mu k_lastbpm tune_q]
  obtain pa where pa: "get_phases_intersection OPTIMISTIC bpm (length bpm) bd plane_mu mad_twiss Files
                k_lastbpm tune_q = Some pa"
    and meas: "MEAS pa ! i ! j =
          np_remainder
            (np_divide
               (np_arctan2
                  (np_divide (Fin (sum_sin bd plane_mu k_lastbpm tune_q bpm Files i j)) (Fin ?N))
                  (np_divide (Fin (sum_cos bd plane_mu k_lastbpm tune_q bpm Files i j)) (Fin ?N)))
               (Fin TWOPI)) 1"
    and err: "ERRMEAS pa ! i ! j =
          (let r = np_divide
                     (Fin (sqrt ((sum_sin bd plane_mu k_lastbpm tune_q bpm Files i j)\<^sup>2
                                 + (sum_cos bd plane_mu k_lastbpm tune_q bpm Files i j)\<^sup>2)))
                     (Fin ?N);
               e = np_sqrt (np_multiply (Fin (- 2)) (np_log r))
           in if OPTIMISTIC then np_divide e (np_sqrt (Fin ?N)) else e)"
    and nf: "NFILES pa ! i ! j = length Files"
    by blast
  from N have m: "MEAS pa ! i ! j =
          Fin (frac (arctan2 (sum_sin bd plane_mu k_lastbpm tune_q bpm Files i j / ?N)
                             (sum_cos bd plane_mu k_lastbpm tune_q bpm Files i j / ?N)
                     / (2 * pi)))"
    by (simp add: meas TWOPI_def py_mod_1)
  have le: "?R \<le> 1" by (rule resultant_bounds(2) [OF assms(1)])
  have e: "ERRMEAS pa ! i ! j =
             Fin (if OPTIMISTIC then sqrt (- 2 * ln ?R) / sqrt ?N else sqrt (- 2 * ln ?R))"
    if "0 < ?R"
    unfolding err using errmeas_positive [OF N, of _ OPTIMISTIC] that le
    by (simp add: resultant_def)
  have z: "ERRMEAS pa ! i ! j = PInf" if "?R = 0"
    unfolding err using errmeas_zero [OF N, of _ OPTIMISTIC] that
    by (simp add: resultant_def)
  from pa m le e z nf show ?thesis by blast
qed

theorem intersection_formulas_witness:
  "\<exists>pa. get_phases_intersection False two_bpms (length two_bpms) 1 ''MUX'' (two_bpm_file 0 0)
            [two_bpm_file 0 0, two_bpm_file 0 (1/4)] 2 0.28 = Some pa
      \<and> MEAS pa ! 0 ! 1 = Fin (1/8)
      \<and> ERRMEAS pa ! 0 ! 1 = Fin (sqrt (- 2 * ln (sqrt 2 / 2)))
      \<and> NFILES pa ! 0 ! 1 = 2"
proof -
  let ?Files = "[two_bpm_file 0 0, two_bpm_file 0 (1/4)]"
  have h1: "?Files \<noteq> []" by simp
  have h2: "\<forall>f \<in> set ?Files. covers f two_bpms" by (simp add: two_bpm_file_covers)
  have h3: "covers (two_bpm_file 0 0) two_bpms" by (rule two_bpm_file_covers)
  have h4: "0 < length two_bpms" "1 < length two_bpms" by (simp_all add: two_bpms_def)
  have s: "sum_sin 1 ''MUX'' 2 0.28 two_bpms ?Files 0 1 = 1"
    and c: "sum_cos 1 ''MUX'' 2 0.28 two_bpms ?Files 0 1 = 1"
    using sums_quarter by simp_all
  have r: "resultant 1 ''MUX'' 2 0.28 two_bpms ?Files 0 1 = sqrt 2 / 2"
    using sums_quarter by (simp add: resultant_def)
  have a: "frac (arctan2 (1 / real (length ?Files)) (1 / real (length ?Files)) / (2 * pi)) = 1 / 8"
    by (simp add: arctan2_def arctan_one frac_eq)
  have p: "0 < sqrt 2 / 2" by simp
  from intersection_formulas [OF h1 h2 h3 h4, where OPTIMISTIC = False and bd = 1
      and plane_mu = "''MUX''" and k_lastbpm = 2 and tune_q = "0.28"]
  show ?thesis unfolding s c r a using p by auto
qed

subsection \<open>The stack of the Union builder\<close>

lemma index_of_Some: "index_of xs a = Some p \<Longrightarrow> p < length xs \<and> xs ! p = a"
  by (induction xs arbitrary: p) (auto split: if_splits)

lemma map_of_zip_index_of:
  "length xs = length ys \<Longrightarrow>
    map_of (zip xs ys) a = (case index_of xs a of None \<Rightarrow> None | Some p \<Rightarrow> Some (ys ! p))"
proof (induction xs arbitrary: ys)
  case Nil
  then show ?case by simp
next
  case (Cons x xs)
  then obtain y ys' where ys: "ys = y # ys'" by (cases ys) auto
  with Cons show ?case by (auto split: option.splits)
qed

lemma frame_at_union_frame:
  "frame_at (union_frame bd plane_mu f) a b = wrapped_diff bd plane_mu f a b"
proof -
  let ?idx = "tfs_index f" and ?col = "column f plane_mu"
  have len: "length ?idx = length ?col" by (simp add: tfs_index_def column_def)
  note at = map_of_zip_index_of [OF len]
  show ?thesis
  proof (cases "index_of ?idx a")
    case None
    then show ?thesis by (simp add: frame_at_def union_frame_def wrapped_diff_def tfs_at_def at Let_def)
  next
    case (Some p)
    note p = this
    show ?thesis
    proof (cases "index_of ?idx b")
      case None
      with p show ?thesis
        by (simp add: frame_at_def union_frame_def wrapped_diff_def tfs_at_def at Let_def)
    next
      case (Some q)
      from index_of_Some [OF p] index_of_Some [OF Some] len
      have pq: "p < length ?col" "q < length ?col" by simp_all
      then have "mat_map (\<lambda>d. if d > 0 then d else d + 1.0) (pairwise_diff (map (\<lambda>x. bd * x) ?col)) ! p ! q
          = (if bd * ?col ! q - bd * ?col ! p > 0 then bd * ?col ! q - bd * ?col ! p
             else bd * ?col ! q - bd * ?col ! p + 1)"
        using square_pairwise_diff [of "map (\<lambda>x. bd * x) ?col"]
        by (simp add: mat_map_nth [where n = "length ?col"] pairwise_diff_nth)
      with p Some show ?thesis
        by (simp add: frame_at_def union_frame_def wrapped_diff_def tfs_at_def at Let_def)
    qed
  qed
qed

lemma reindex_nth:
  "i < length bpm \<Longrightarrow> j < length bpm \<Longrightarrow> reindex bpm fr ! i ! j = frame_at fr (bpm ! i) (bpm ! j)"
  by (simp add: reindex_def)

lemma union_axis0:
  assumes "i < length bpm" "j < length bpm"
  shows "axis0 (map (\<lambda>f. reindex bpm (union_frame bd plane_mu f)) Files) i j
    = map (\<lambda>f. wrapped_diff bd plane_mu f (bpm ! i) (bpm ! j)) Files"
  using assms by (simp add: axis0_def reindex_nth frame_at_union_frame)

lemma fin_or_nan_wrapped: "fin_or_nan (map (\<lambda>f. wrapped_diff bd plane_mu f a b) Files)"
  by (auto simp: fin_or_nan_def wrapped_diff_def split: option.splits)

lemma not_nan_fin_values: "fin_or_nan xs \<Longrightarrow> not_nan xs = map Fin (fin_values xs)"
  by (induction xs rule: fin_values.induct) (auto simp: fin_or_nan_def not_nan_def)

lemma foldl_np_add_Fin: "foldl np_add (Fin a) (map Fin vs) = Fin (a + sum_list vs)"
  by (induction vs arbitrary: a) (simp_all add: add.assoc)

lemma np_sum_Fin: "np_sum (map Fin vs) = Fin (sum_list vs)"
  by (simp add: np_sum_def foldl_np_add_Fin)

lemma np_nanmean_fin:
  assumes "fin_or_nan xs"
  shows "np_nanmean xs = (if fin_values xs = [] then NaN else Fin (np_mean (fin_values xs)))"
  by (simp add: np_nanmean_def not_nan_fin_values [OF assms] np_sum_Fin np_mean_def)

lemma np_nanstd_fin:
  assumes "fin_or_nan xs"
  shows "np_nanstd xs = (if fin_values xs = [] then NaN else Fin (population_std (fin_values xs)))"
proof (cases "fin_values xs = []")
  case True
  then show ?thesis
    by (simp add: np_nanstd_def Let_def not_nan_fin_values [OF assms] np_sum_def)
next
  case False
  let ?vs = "fin_values xs"
  let ?m = "np_mean ?vs"
  let ?n = "real (length ?vs)"
  have sq: "map (\<lambda>x. np_multiply (np_subtract x (Fin ?m)) (np_subtract x (Fin ?m))) (not_nan xs)
      = map Fin (map (\<lambda>x. (x - ?m)\<^sup>2) ?vs)"
    unfolding not_nan_fin_values [OF assms] by (simp add: np_subtract_def power2_eq_square)
  have nonneg: "0 \<le> (\<Sum>x\<leftarrow>?vs. (x - ?m)\<^sup>2) / ?n"
    by (intro divide_nonneg_nonneg sum_list_nonneg) auto
  from False have n: "?n \<noteq> 0" by simp
  have "np_nanstd xs
      = np_sqrt (np_divide
          (np_sum (map (\<lambda>x. np_multiply (np_subtract x (Fin ?m)) (np_subtract x (Fin ?m))) (not_nan xs)))
          (Fin (real (length (not_nan xs)))))"
    using False by (simp add: np_nanstd_def Let_def np_nanmean_fin [OF assms])
  also have "\<dots> = np_sqrt (np_divide (Fin (\<Sum>x\<leftarrow>?vs. (x - ?m)\<^sup>2)) (Fin ?n))"
    unfolding sq np_sum_Fin by (simp add: not_nan_fin_values [OF assms])
  also have "\<dots> = Fin (population_std ?vs)"
    using n nonneg by (simp add: population_std_def)
  finally show ?thesis using False by simp
qed

lemma vec_t_value_correction_1: "vec_t_value_correction n = 1"
  using t_value_correction_range [of n]
  by (simp add: vec_t_value_correction_def py_int_def floor_eq_iff)

lemma union_entry:
  assumes mdl: "covers mad_twiss bpm"
    and ij: "i < length bpm" "j < length bpm"
  shows "\<exists>pa. get_phases_union OPTIMISTIC bpm bd plane_mu mad_twiss Files k = Some pa
      \<and> MEAS pa ! i ! j =
          (if union_samples bd plane_mu bpm Files i j = [] then NaN
           else Fin (frac (np_mean (union_samples bd plane_mu bpm Files i j))))
      \<and> ERRMEAS pa ! i ! j =
          (if union_samples bd plane_mu bpm Files i j = [] then NaN
           else Fin (if OPTIMISTIC
                     then population_std (union_samples bd plane_mu bpm Files i j)
                            / sqrt (real (length (union_samples bd plane_mu bpm Files i j)))
                     else population_std (union_samples bd plane_mu bpm Files i j)))
      \<and> NFILES pa ! i ! j = length (union_samples bd plane_mu bpm Files i j)"
proof -
  let ?xs = "map (\<lambda>f. wrapped_diff bd plane_mu f (bpm ! i) (bpm ! j)) Files"
  let ?vs = "union_samples bd plane_mu bpm Files i j"
  have fn: "fin_or_nan ?xs" by (rule fin_or_nan_wrapped)
  have ax: "axis0 (map (\<lambda>f. reindex bpm (union_frame bd plane_mu f)) Files) i j = ?xs"
    by (rule union_axis0 [OF ij])
  have vs: "fin_values ?xs = ?vs" by (simp add: union_samples_def)
  have len: "length (not_nan ?xs) = length ?vs"
    by (simp add: not_nan_fin_values [OF fn] vs)
  have mean: "np_remainder (np_nanmean ?xs) 1.0 = (if ?vs = [] then NaN else Fin (frac (np_mean ?vs)))"
    by (simp add: np_nanmean_fin [OF fn] vs py_mod_1)
  have std: "np_nanstd ?xs = (if ?vs = [] then NaN else Fin (population_std ?vs))"
    by (simp add: np_nanstd_fin [OF fn] vs)
  have e1: "np_multiply (np_nanstd ?xs) (Fin (of_int (vec_t_value_correction (int (length (not_nan ?xs))))))
      = (if ?vs = [] then NaN else Fin (population_std ?vs))"
    by (simp add: std vec_t_value_correction_1)
  have e2: "np_multiply (np_divide (np_nanstd ?xs) (np_sqrt (Fin (real (length (not_nan ?xs))))))
        (Fin (of_int (vec_t_value_correction (int (length (not_nan ?xs))))))
      = (if ?vs = [] then NaN else Fin (population_std ?vs / sqrt (real (length ?vs))))"
    by (simp add: std vec_t_value_correction_1 len)
  let ?stack = "map (\<lambda>f. reindex bpm (union_frame bd plane_mu f)) Files"
  let ?t = "\<lambda>i j. Fin (of_int (vec_t_value_correction (int (length (not_nan (axis0 ?stack i j))))))"
  from mdl have "loc mad_twiss bpm plane_mu = Some (map (\<lambda>b. the (tfs_at mad_twiss plane_mu b)) bpm)"
    by (simp add: covers_def loc_Some)
  then have "\<exists>pa. get_phases_union OPTIMISTIC bpm bd plane_mu mad_twiss Files k = Some pa
      \<and> MEAS pa = over_pairs (length bpm) (\<lambda>i j. np_remainder (np_nanmean (axis0 ?stack i j)) 1.0)
      \<and> ERRMEAS pa =
          (if OPTIMISTIC
           then over_pairs (length bpm) (\<lambda>i j.
                  np_multiply (np_divide (np_nanstd (axis0 ?stack i j))
                                 (np_sqrt (Fin (real (length (not_nan (axis0 ?stack i j)))))))
                    (?t i j))
           else over_pairs (length bpm) (\<lambda>i j. np_multiply (np_nanstd (axis0 ?stack i j)) (?t i j)))
      \<and> NFILES pa = over_pairs (length bpm) (\<lambda>i j. length (not_nan (axis0 ?stack i j)))"
    by (simp add: get_phases_union_def Let_def)
  then obtain pa where pa: "get_phases_union OPTIMISTIC bpm bd plane_mu mad_twiss Files k = Some pa"
    and M: "MEAS pa = over_pairs (length bpm) (\<lambda>i j. np_remainder (np_nanmean (axis0 ?stack i j)) 1.0)"
    and E: "ERRMEAS pa =
          (if OPTIMISTIC
           then over_pairs (length bpm) (\<lambda>i j.
                  np_multiply (np_divide (np_nanstd (axis0 ?stack i j))
                                 (np_sqrt (Fin (real (length (not_nan (axis0 ?stack i j)))))))
                    (?t i j))
           else over_pairs (length bpm) (\<lambda>i j. np_multiply (np_nanstd (axis0 ?stack i j)) (?t i j)))"
    and NF: "NFILES pa = over_pairs (length bpm) (\<lambda>i j. length (not_nan (axis0 ?stack i j)))"
    by blast
  have "MEAS pa ! i ! j = np_remainder (np_nanmean ?xs) 1.0"
    unfolding M over_pairs_nth [OF ij] ax ..
  then have m: "MEAS pa ! i ! j = (if ?vs = [] then NaN else Fin (frac (np_mean ?vs)))"
    by (simp only: mean)
  have "NFILES pa ! i ! j = length (not_nan ?xs)"
    unfolding NF over_pairs_nth [OF ij] ax ..
  then have n: "NFILES pa ! i ! j = length ?vs"
    by (simp only: len)
  have e: "ERRMEAS pa ! i ! j =
          (if ?vs = [] then NaN
           else Fin (if OPTIMISTIC then population_std ?vs / sqrt (real (length ?vs))
                     else population_std ?vs))"
  proof (cases OPTIMISTIC)
    case True
    then have "ERRMEAS pa ! i ! j =
        np_multiply (np_divide (np_nanstd ?xs) (np_sqrt (Fin (real (length (not_nan ?xs))))))
          (Fin (of_int (vec_t_value_correction (int (length (not_nan ?xs))))))"
      unfolding E by (simp only: if_True over_pairs_nth [OF ij] ax)
    with True show ?thesis by (simp only: e2) simp
  next
    case False
    then have "ERRMEAS pa ! i ! j =
        np_multiply (np_nanstd ?xs)
          (Fin (of_int (vec_t_value_correction (int (length (not_nan ?xs))))))"
      unfolding E by (simp only: if_False over_pairs_nth [OF ij] ax)
    with False show ?thesis by (simp only: e1) simp
  qed
  from pa m e n show ?thesis by blast
qed

subsection \<open>The Union builder\<close>

lemma wrapped_diff_two_bpm_file:
  "wrapped_diff bd ''MUX'' (two_bpm_file a b) ''BPM1'' ''BPM2''
    = Fin (if bd * b - bd * a > 0 then bd * b - bd * a else bd * b - bd * a + 1)"
  "wrapped_diff bd ''MUX'' (two_bpm_file a b) ''BPM2'' ''BPM1''
    = Fin (if bd * a - bd * b > 0 then bd * a - bd * b else bd * a - bd * b + 1)"
  by (simp_all add: wrapped_diff_def two_bpm_file_tfs_at)

lemma two_bpms_nth: "two_bpms ! 0 = ''BPM1''" "two_bpms ! Suc 0 = ''BPM2''" "length two_bpms = 2"
  by (simp_all add: two_bpms_def)

lemma samples_99_01:
  "union_samples 1 ''MUX'' two_bpms [two_bpm_file 0 0.99, two_bpm_file 0 0.01] 0 (Suc 0) = [0.99, 0.01]"
  by (simp add: union_samples_def two_bpms_nth wrapped_diff_two_bpm_file)

lemma std_99_01: "population_std [0.99, 0.01] = 49/100"
proof -
  have "population_std [0.99, 0.01] = sqrt ((49/100)\<^sup>2)"
    by (simp add: population_std_def np_mean_def power2_eq_square)
  then show ?thesis by simp
qed

text \<open>
  Claim C2, evaluated on two files in which the second BPM is 0.99 and 0.01 after the
  first. The samples of the pair are 0.99 and 0.01. The Union builder stores their
  arithmetic mean 0.5 as \<open>MEAS\<close> and their standard deviation with divisor \<open>n\<close>, 0.49, as
  \<open>ERRMEAS\<close>, where the dual-candidate circular mean \<^verbatim>\<open>calc_phase_mean\<close> of the same
  samples is 0 and the dual-candidate deviation \<^verbatim>\<open>calc_phase_std\<close> is \<open>sqrt(0.0002)\<close>.
\<close>

theorem union_mean_example:
  "union_samples 1 ''MUX'' two_bpms [two_bpm_file 0 0.99, two_bpm_file 0 0.01] 0 1 = [0.99, 0.01]
   \<and> meas_at (get_phases_union False two_bpms 1 ''MUX'' (two_bpm_file 0 0)
                [two_bpm_file 0 0.99, two_bpm_file 0 0.01] 2) 0 1 = Some (Fin (1/2))
   \<and> calc_phase_mean [0.99, 0.01] 1 = Fin 0
   \<and> errmeas_at (get_phases_union False two_bpms 1 ''MUX'' (two_bpm_file 0 0)
                [two_bpm_file 0 0.99, two_bpm_file 0 0.01] 2) 0 1 = Some (Fin (49/100))
   \<and> calc_phase_std [0.99, 0.01] 1 = sqrt (1/5000)"
proof -
  let ?Files = "[two_bpm_file 0 0.99, two_bpm_file 0 0.01]"
  have s: "union_samples 1 ''MUX'' two_bpms ?Files 0 1 = [0.99, 0.01]"
    using samples_99_01 by simp
  have h: "covers (two_bpm_file 0 0) two_bpms" "0 < length two_bpms" "1 < length two_bpms"
    by (simp_all add: two_bpm_file_covers two_bpms_nth)
  have mean: "frac (np_mean [0.99, 0.01]) = 1/2"
    by (simp add: np_mean_def frac_def)
  have cm: "calc_phase_mean [0.99, 0.01] 1 = Fin 0"
    by (simp add: calc_phase_mean_def Let_def py_mod_def np_mean_def)
  have cs: "calc_phase_std [0.99, 0.01] 1 = sqrt (1/5000)"
    by (simp add: calc_phase_std_def Let_def py_mod_def np_mean_def t_value_correction_def
        power2_eq_square)
  from union_entry [OF h, where OPTIMISTIC = False and bd = 1 and plane_mu = "''MUX''"
      and Files = ?Files and k = 2]
  have "meas_at (get_phases_union False two_bpms 1 ''MUX'' (two_bpm_file 0 0) ?Files 2) 0 1
        = Some (Fin (1/2))
      \<and> errmeas_at (get_phases_union False two_bpms 1 ''MUX'' (two_bpm_file 0 0) ?Files 2) 0 1
        = Some (Fin (49/100))"
    unfolding s mean std_99_01 by (auto simp: meas_at_def errmeas_at_def)
  with s cm cs show ?thesis by simp
qed

text \<open>
  Claim C9. The vectorised correction factor, cast to the integer output type, is 1 for
  every count; so for every pair the \<open>ERRMEAS\<close> of the Union builder is the standard
  deviation of the samples of the pair (divided by the square root of their number
  under optimistic error bars), with no factor from the table.
\<close>

theorem union_errmeas_uncorrected:
  "vec_t_value_correction n = 1
   \<and> (covers mad_twiss bpm \<and> i < length bpm \<and> j < length bpm \<longrightarrow>
        (\<exists>pa. get_phases_union OPTIMISTIC bpm bd plane_mu mad_twiss Files k_lastbpm = Some pa
           \<and> ERRMEAS pa ! i ! j =
               (if union_samples bd plane_mu bpm Files i j = [] then NaN
                else Fin (if OPTIMISTIC
                          then population_std (union_samples bd plane_mu bpm Files i j)
                                 / sqrt (real (length (union_samples bd plane_mu bpm Files i j)))
                          else population_std (union_samples bd plane_mu bpm Files i j)))))"
proof -
  have "\<exists>pa. get_phases_union OPTIMISTIC bpm bd plane_mu mad_twiss Files k_lastbpm = Some pa
           \<and> ERRMEAS pa ! i ! j =
               (if union_samples bd plane_mu bpm Files i j = [] then NaN
                else Fin (if OPTIMISTIC
                          then population_std (union_samples bd plane_mu bpm Files i j)
                                 / sqrt (real (length (union_samples bd plane_mu bpm Files i j)))
                          else population_std (union_samples bd plane_mu bpm Files i j)))"
    if "covers mad_twiss bpm" "i < length bpm" "j < length bpm"
    using union_entry [OF that, of OPTIMISTIC bd plane_mu Files k_lastbpm] by blast
  with vec_t_value_correction_1 show ?thesis by blast
qed

theorem union_errmeas_uncorrected_witness:
  "vec_t_value_correction 2 = 1
   \<and> (\<exists>pa. get_phases_union False two_bpms 1 ''MUX'' (two_bpm_file 0 0)
           [two_bpm_file 0 0.99, two_bpm_file 0 0.01] 2 = Some pa
         \<and> ERRMEAS pa ! 0 ! 1 = Fin (49/100))"
proof -
  let ?Files = "[two_bpm_file 0 0.99, two_bpm_file 0 0.01]"
  have s: "union_samples 1 ''MUX'' two_bpms ?Files 0 1 = [0.99, 0.01]"
    using samples_99_01 by simp
  have h: "covers (two_bpm_file 0 0) two_bpms \<and> 0 < length two_bpms \<and> 1 < length two_bpms"
    by (simp add: two_bpm_file_covers two_bpms_nth)
  from union_errmeas_uncorrected [where n = 2 and OPTIMISTIC = False and bd = 1
      and plane_mu = "''MUX''" and Files = ?Files and k_lastbpm = 2 and bpm = two_bpms
      and mad_twiss = "two_bpm_file 0 0" and i = 0 and j = 1] h
  show ?thesis unfolding s std_99_01 by auto
qed

text \<open>
  Claim C7, as amended. In Union mode, for every file and every pair \<open>(i, j)\<close> of BPMs
  that the file has, the entry of the file in the stack is the difference
  \<open>angle[j] - angle[i]\<close> (beam direction applied) with 1 added exactly when the difference
  is not positive (negative or zero); with phases in \<open>[0, 1)\<close> every such entry lies in
  \<open>(0, 1]\<close>.
\<close>

theorem union_per_file_entry:
  assumes "tfs_at file_tfs plane_mu (bpm ! i) = Some x"
    and "tfs_at file_tfs plane_mu (bpm ! j) = Some y"
    and "i < length bpm" "j < length bpm"
  shows "reindex bpm (union_frame bd plane_mu file_tfs) ! i ! j
        = Fin (if bd * y - bd * x > 0 then bd * y - bd * x else bd * y - bd * x + 1)
      \<and> ((bd = 1 \<or> bd = - 1) \<and> 0 \<le> x \<and> x < 1 \<and> 0 \<le> y \<and> y < 1 \<longrightarrow>
           (\<exists>v. reindex bpm (union_frame bd plane_mu file_tfs) ! i ! j = Fin v \<and> 0 < v \<and> v \<le> 1))"
proof -
  have entry: "reindex bpm (union_frame bd plane_mu file_tfs) ! i ! j
        = Fin (if bd * y - bd * x > 0 then bd * y - bd * x else bd * y - bd * x + 1)"
    using assms by (simp add: reindex_nth frame_at_union_frame wrapped_diff_def)
  have "0 < (if bd * y - bd * x > 0 then bd * y - bd * x else bd * y - bd * x + 1)
      \<and> (if bd * y - bd * x > 0 then bd * y - bd * x else bd * y - bd * x + 1) \<le> 1"
    if "(bd = 1 \<or> bd = - 1) \<and> 0 \<le> x \<and> x < 1 \<and> 0 \<le> y \<and> y < 1"
    using that by auto
  with entry show ?thesis by simp
qed

theorem union_per_file_entry_witness:
  "reindex two_bpms (union_frame (- 1) ''MUX'' (two_bpm_file 0.25 0.75)) ! 0 ! 1 = Fin (1/2)
   \<and> reindex two_bpms (union_frame (- 1) ''MUX'' (two_bpm_file 0.25 0.75)) ! 1 ! 0 = Fin (1/2)
   \<and> reindex two_bpms (union_frame 1 ''MUX'' (two_bpm_file 0.3 0.3)) ! 0 ! 1 = Fin 1"
proof -
  have a: "tfs_at (two_bpm_file 0.25 0.75) ''MUX'' (two_bpms ! 0) = Some 0.25"
    and b: "tfs_at (two_bpm_file 0.25 0.75) ''MUX'' (two_bpms ! 1) = Some 0.75"
    and c: "tfs_at (two_bpm_file 0.3 0.3) ''MUX'' (two_bpms ! 0) = Some 0.3"
    and d: "tfs_at (two_bpm_file 0.3 0.3) ''MUX'' (two_bpms ! 1) = Some 0.3"
    and l: "0 < length two_bpms" "1 < length two_bpms"
    by (simp_all add: two_bpms_nth two_bpm_file_tfs_at)
  from union_per_file_entry [OF a b l, of "- 1"] union_per_file_entry [OF b a l(2) l(1), of "- 1"]
    union_per_file_entry [OF c d l, of 1]
  show ?thesis by simp
qed

text \<open>
  The claim as stated fails on the diagonal of every file, and wherever two BPMs have
  the same phase: the difference 0 is not negative, 1 is added all the same, and the
  entry 1 is outside \<open>[0, 1)\<close>.
\<close>

theorem union_per_file_entry_counterexample:
  "reindex two_bpms (union_frame 1 ''MUX'' (two_bpm_file 0.3 0.6)) ! 0 ! 0 = Fin 1
   \<and> \<not> (1 * 0.3 - 1 * 0.3 < (0::real))
   \<and> \<not> ((1::real) < 1)"
  by (simp add: reindex_nth two_bpms_nth frame_at_union_frame wrapped_diff_def
      two_bpm_file_tfs_at)

subsection \<open>The tune of a plane\<close>

lemma map2_map_map: "map2 f (map g xs) (map h xs) = map (\<lambda>x. f (g x) (h x)) xs"
  by (induction xs) simp_all

lemma weight_pos: "0 < weight rms"
  by (simp add: weight_def)

lemma sum_list_pos:
  "xs \<noteq> [] \<Longrightarrow> (\<And>x. x \<in> set xs \<Longrightarrow> 0 < f x) \<Longrightarrow> 0 < (\<Sum>x\<leftarrow>xs. (f x :: real))"
proof (induction xs)
  case Nil
  then show ?case by simp
next
  case (Cons a xs)
  have "0 \<le> (\<Sum>x\<leftarrow>xs. f x)"
    by (rule sum_list_nonneg) (use Cons.prems(2) in \<open>auto intro: less_imp_le\<close>)
  moreover have "0 < f a" using Cons.prems(2) by simp
  ultimately show ?case by simp
qed

text \<open>
  Claim C5, as amended. For every list of files the tune of a plane is
  \<open>\<Sigma>(tune\<^sub>k \<sqdot> weight\<^sub>k) / \<Sigma> weight\<^sub>k\<close> with \<open>weight\<^sub>k = 1 / rms\<^sub>k\<^sup>2\<close>, where 1000 stands for an
  RMS of 0, so that the sum of the weights of a list that is not empty is positive;
  for two files with tunes 0.28 (RMS 0.001) and 0.30 (RMS 0.002) the result is 0.284.
\<close>

theorem tune_of_files_weighted:
  "tune_of_files Q QRMS twiss_files
      = (\<Sum>f\<leftarrow>twiss_files. Q f * weight (QRMS f)) / (\<Sum>f\<leftarrow>twiss_files. weight (QRMS f))
   \<and> (twiss_files \<noteq> [] \<longrightarrow> 0 < (\<Sum>f\<leftarrow>twiss_files. weight (QRMS f)))
   \<and> tune_of_files Q1 Q1RMS [tune_file 0.28 0.001, tune_file 0.30 0.002] = 0.284"
proof -
  have general: "tune_of_files Q QRMS twiss_files
      = (\<Sum>f\<leftarrow>twiss_files. Q f * weight (QRMS f)) / (\<Sum>f\<leftarrow>twiss_files. weight (QRMS f))"
    for Q QRMS twiss_files
    by (simp add: tune_of_files_def Let_def map2_map_map weight_def)
  have pos: "0 < (\<Sum>f\<leftarrow>twiss_files. weight (QRMS f))" if "twiss_files \<noteq> []"
    using that by (rule sum_list_pos) (rule weight_pos)
  have ex: "tune_of_files Q1 Q1RMS [tune_file 0.28 0.001, tune_file 0.30 0.002] = 0.284"
    unfolding general by (simp add: weight_def tune_file_def power2_eq_square)
  from general pos ex show ?thesis by blast
qed

theorem tune_of_files_weighted_witness:
  "tune_of_files Q2 Q2RMS [two_bpm_file 0 0, (two_bpm_file 0 0)\<lparr>Q2 := 0.32, Q2RMS := 0\<rparr>]
     = (0.31 * 250000 + 0.32 * (1 / 1000000)) / (250000 + 1 / 1000000)
   \<and> 0 < weight (Q2RMS (two_bpm_file 0 0)) + weight 0"
proof -
  let ?fs = "[two_bpm_file 0 0, (two_bpm_file 0 0)\<lparr>Q2 := 0.32, Q2RMS := 0\<rparr>]"
  have h: "?fs \<noteq> []" by simp
  from tune_of_files_weighted [of Q2 Q2RMS ?fs] h
  show ?thesis by (simp add: weight_def two_bpm_file_def power2_eq_square)
qed

text \<open>The value of the example is not the \<open>0.2824\<close> of the claim as stated.\<close>

theorem tune_of_files_example_counterexample:
  "tune_of_files Q1 Q1RMS [tune_file 0.28 0.001, tune_file 0.30 0.002] = 0.284
   \<and> \<not> \<bar>tune_of_files Q1 Q1RMS [tune_file 0.28 0.001, tune_file 0.30 0.002] - 0.2824\<bar> < 0.001"
  by (simp add: tune_of_files_def tune_file_def Let_def power2_eq_square)

subsection \<open>The phases of one plane\<close>

lemma get_phases_returns:
  assumes "covers mad_twiss bpm"
    and "\<not> union getllm_d \<longrightarrow> (\<forall>f \<in> set Files. covers f bpm)"
  shows "\<exists>pa. get_phases OPTIMISTIC getllm_d mad_twiss Files bpm tune_q plane = Some (pa, 0)"
proof (cases "union getllm_d")
  case True
  from assms(1) have "loc mad_twiss bpm (if plane = ''H'' then ''MUX'' else ''MUY'')
      = Some (map (\<lambda>b. the (tfs_at mad_twiss (if plane = ''H'' then ''MUX'' else ''MUY'') b)) bpm)"
    by (simp add: covers_def loc_Some)
  with True show ?thesis
    by (simp add: get_phases_def Let_def get_phases_union_def)
next
  case False
  let ?n = "length bpm"
  let ?pm = "if plane = ''H'' then ''MUX'' else ''MUY''"
  let ?bd = "get_beam_direction (accelerator getllm_d)"
  let ?k = "if lhc_phase getllm_d = ''1'' then get_k_first_BPM (accelerator getllm_d) bpm else length bpm"
  from False assms(2) have files: "\<forall>f \<in> set Files. covers f bpm" by simp
  from intersection_loop_sums [OF files square_mat_const [of _ 0] square_mat_const [of _ 0],
      where bd = ?bd and plane_mu = ?pm and k = ?k and tune_q = tune_q]
  obtain S C where
    loop: "intersection_loop bpm ?bd ?pm ?k tune_q Files (mat_const ?n ?n 0, mat_const ?n ?n 0)
            = Some (S, C)"
    by blast
  from assms(1) have "loc mad_twiss bpm ?pm = Some (map (\<lambda>b. the (tfs_at mad_twiss ?pm b)) bpm)"
    by (simp add: covers_def loc_Some)
  with False loop show ?thesis
    by (simp add: get_phases_def Let_def get_phases_intersection_def)
qed

text \<open>
  Claim C10. Whenever \<^verbatim>\<open>get_phases\<close> returns, the second component of its result is 0,
  whatever the files, the model, the tune, the plane and the builder are; and after
  the tune section of \<^verbatim>\<open>calculate_phase\<close> the fields \<open>mux\<close> and \<open>muy\<close> of every plane
  that has files are 0.
\<close>

theorem get_phases_muave:
  "(\<forall>pa mu. get_phases OPTIMISTIC getllm_d mad_twiss Files bpm tune_q plane = Some (pa, mu)
        \<longrightarrow> mu = 0)
   \<and> (\<forall>phase_d tune_d'.
        calculate_phase OPTIMISTIC getllm_d twiss_d mad_twiss tune_d = Some (phase_d, tune_d')
        \<longrightarrow> (has_zero_dpp_x twiss_d \<longrightarrow> mux tune_d' = 0)
          \<and> (has_zero_dpp_y twiss_d \<longrightarrow> muy tune_d' = 0))"
proof -
  have gp: "mu = 0"
    if "get_phases OPTIMISTIC getllm_d mad_twiss Files bpm tune_q plane = Some (pa, mu)"
    for pa mu Files bpm tune_q plane
    using that by (auto simp: get_phases_def Let_def split: option.splits)
  have x: "(has_zero_dpp_x twiss_d \<longrightarrow> mux t1 = 0) \<and> (\<not> has_zero_dpp_x twiss_d \<longrightarrow> t1 = t0)"
    if "calculate_phase_x OPTIMISTIC getllm_d twiss_d mad_twiss (p0, t0) = Some (p1, t1)"
    for p0 t0 p1 t1
    using that
    by (auto simp: calculate_phase_x_def Let_def split: if_splits option.splits dest: gp)
  have y: "(has_zero_dpp_y twiss_d \<longrightarrow> muy t1 = 0) \<and> mux t1 = mux t0"
    if "calculate_phase_y OPTIMISTIC getllm_d twiss_d mad_twiss (p0, t0) = Some (p1, t1)"
    for p0 t0 p1 t1
    using that
    by (auto simp: calculate_phase_y_def Let_def split: if_splits option.splits dest: gp)
  have cp: "(has_zero_dpp_x twiss_d \<longrightarrow> mux tune_d' = 0) \<and> (has_zero_dpp_y twiss_d \<longrightarrow> muy tune_d' = 0)"
    if "calculate_phase OPTIMISTIC getllm_d twiss_d mad_twiss tune_d = Some (phase_d, tune_d')"
    for phase_d tune_d'
  proof -
    from that obtain p1 t1 where
      1: "calculate_phase_x OPTIMISTIC getllm_d twiss_d mad_twiss
            (\<lparr>phase_advances_free_x = None, phase_advances_free_y = None\<rparr>, tune_d) = Some (p1, t1)"
      and 2: "calculate_phase_y OPTIMISTIC getllm_d twiss_d mad_twiss (p1, t1) = Some (phase_d, tune_d')"
      by (auto simp: calculate_phase_def split: option.splits)
    from x [OF 1] y [OF 2] show ?thesis by simp
  qed
  from gp cp show ?thesis by blast
qed

theorem get_phases_muave_witness:
  "(\<exists>pa. get_phases False (sample_getllm_d False) (two_bpm_file 0 0) [two_bpm_file 0 (1/4)]
            two_bpms 0.28 ''H'' = Some (pa, 0))
   \<and> (\<exists>phase_d tune_d'.
        calculate_phase False (sample_getllm_d False) sample_twiss_d (two_bpm_file 0 0)
          \<lparr>q1 = 0, q1f = 0, mux = 5, q2 = 0, q2f = 0, muy = 7\<rparr> = Some (phase_d, tune_d')
        \<and> mux tune_d' = 0)"
proof -
  let ?td = "\<lparr>q1 = 0, q1f = 0, mux = 5, q2 = 0, q2f = 0, muy = 7\<rparr>"
  have c: "covers (two_bpm_file 0 0) two_bpms"
    "\<forall>f \<in> set [two_bpm_file 0 (1/4)]. covers f two_bpms"
    by (simp_all add: two_bpm_file_covers)
  from get_phases_returns [of "two_bpm_file 0 0" two_bpms "sample_getllm_d False"
      "[two_bpm_file 0 (1/4)]" False "0.28" "''H''"] c
  obtain pa mu where gp: "get_phases False (sample_getllm_d False) (two_bpm_file 0 0)
      [two_bpm_file 0 (1/4)] two_bpms 0.28 ''H'' = Some (pa, mu)"
    by blast
  have x: "has_zero_dpp_x sample_twiss_d" "\<not> has_zero_dpp_y sample_twiss_d"
    by (simp_all add: has_zero_dpp_x_def has_zero_dpp_y_def sample_twiss_d_def)
  from get_phases_returns [of "two_bpm_file 0 0" two_bpms "sample_getllm_d False"
      "[two_bpm_file 0 (1/4)]" False
      "tune_of_files Q1 Q1RMS [two_bpm_file 0 (1/4)]" "''H''"] c
  obtain pa' where "get_phases False (sample_getllm_d False) (two_bpm_file 0 0)
      [two_bpm_file 0 (1/4)] two_bpms (tune_of_files Q1 Q1RMS [two_bpm_file 0 (1/4)]) ''H''
      = Some (pa', 0)"
    by blast
  with x obtain phase_d tune_d' where cp:
    "calculate_phase False (sample_getllm_d False) sample_twiss_d (two_bpm_file 0 0) ?td
      = Some (phase_d, tune_d')"
    by (simp add: calculate_phase_def calculate_phase_x_def calculate_phase_y_def Let_def
        sample_twiss_d_def sample_getllm_d_def)
  from get_phases_muave [where OPTIMISTIC = False and getllm_d = "sample_getllm_d False"
      and mad_twiss = "two_bpm_file 0 0" and Files = "[two_bpm_file 0 (1/4)]" and bpm = two_bpms
      and tune_q = "0.28" and plane = "''H''" and twiss_d = sample_twiss_d and tune_d = ?td]
    gp cp x
  show ?thesis by blast
qed

subsection \<open>The angle of a unit vector\<close>







subsection \<open>One measurement file\<close>







subsection \<open>Swapping the two BPMs of a pair\<close>

lemma meas_diff_swap:
  "meas_diff bd plane_mu k tune_q bpm f j i = - meas_diff bd plane_mu k tune_q bpm f i j"
  by (simp add: meas_diff_def)

lemma sum_list_uminus_map: "(\<Sum>x\<leftarrow>xs. - (g x :: real)) = - (\<Sum>x\<leftarrow>xs. g x)"
  by (induction xs) simp_all

lemma sum_sin_swap:
  "sum_sin bd plane_mu k tune_q bpm Files j i = - sum_sin bd plane_mu k tune_q bpm Files i j"
proof -
  have "sin (2 * pi * meas_diff bd plane_mu k tune_q bpm f j i)
      = - sin (2 * pi * meas_diff bd plane_mu k tune_q bpm f i j)" for f
    unfolding meas_diff_swap [of _ _ _ _ _ f j i] by simp
  then show ?thesis by (simp add: sum_sin_def sum_list_uminus_map)
qed

lemma sum_cos_swap:
  "sum_cos bd plane_mu k tune_q bpm Files j i = sum_cos bd plane_mu k tune_q bpm Files i j"
proof -
  have "cos (2 * pi * meas_diff bd plane_mu k tune_q bpm f j i)
      = cos (2 * pi * meas_diff bd plane_mu k tune_q bpm f i j)" for f
    unfolding meas_diff_swap [of _ _ _ _ _ f j i] by simp
  then show ?thesis by (simp add: sum_cos_def)
qed

lemma arctan2_minus:
  "arctan2 (- y) x = (if x < 0 \<and> y = 0 then pi else - arctan2 y x)"
  by (auto simp: arctan2_def arctan_minus)

lemma frac_sum_int:
  assumes "a + b \<in> \<int>"
  shows "frac a + frac b \<in> (\<int> :: real set)"
proof -
  have "frac a + frac b = (a + b) - of_int \<lfloor>a\<rfloor> - of_int \<lfloor>b\<rfloor>"
    by (simp add: frac_def)
  with assms show ?thesis by simp
qed

lemma arctan2_antisymmetric:
  "frac (arctan2 y x / (2 * pi)) + frac (arctan2 (- y) x / (2 * pi)) \<in> \<int>"
proof (rule frac_sum_int)
  show "arctan2 y x / (2 * pi) + arctan2 (- y) x / (2 * pi) \<in> \<int>"
  proof (cases "x < 0 \<and> y = 0")
    case True
    then have "arctan2 y x = pi" "arctan2 (- y) x = pi"
      by (simp_all add: arctan2_def)
    then have "arctan2 y x / (2 * pi) + arctan2 (- y) x / (2 * pi) = 1" by simp
    then show ?thesis by simp
  next
    case False
    then have "arctan2 (- y) x = - arctan2 y x" by (auto simp: arctan2_minus)
    then have "arctan2 y x / (2 * pi) + arctan2 (- y) x / (2 * pi) = 0" by simp
    then show ?thesis by simp
  qed
qed

lemma intersection_antisymmetric:
  assumes "Files \<noteq> []"
    and "\<forall>f \<in> set Files. covers f bpm"
    and "covers mad_twiss bpm"
    and "i < length bpm" "j < length bpm"
  shows "\<exists>pa a b. get_phases_intersection OPTIMISTIC bpm (length bpm) bd plane_mu mad_twiss Files
                k tune_q = Some pa
      \<and> MEAS pa ! i ! j = Fin a \<and> MEAS pa ! j ! i = Fin b \<and> a + b \<in> \<int>"
proof -
  let ?N = "real (length Files)"
  let ?S = "sum_sin bd plane_mu k tune_q bpm Files i j"
  let ?C = "sum_cos bd plane_mu k tune_q bpm Files i j"
  from assms(1) have N: "?N \<noteq> 0" by simp
  from intersection_entry [OF assms(2,3,4,5), of OPTIMISTIC bd plane_mu k tune_q]
  obtain pa where pa: "get_phases_intersection OPTIMISTIC bpm (length bpm) bd plane_mu mad_twiss
        Files k tune_q = Some pa"
    and ij: "MEAS pa ! i ! j =
          np_remainder (np_divide (np_arctan2 (np_divide (Fin ?S) (Fin ?N))
                                              (np_divide (Fin ?C) (Fin ?N))) (Fin TWOPI)) 1"
    by blast
  from intersection_entry [OF assms(2,3,5,4), of OPTIMISTIC bd plane_mu k tune_q] pa
  have ji: "MEAS pa ! j ! i =
          np_remainder (np_divide (np_arctan2 (np_divide (Fin (- ?S)) (Fin ?N))
                                              (np_divide (Fin ?C) (Fin ?N))) (Fin TWOPI)) 1"
    by (simp add: sum_sin_swap [of _ _ _ _ _ _ j i] sum_cos_swap [of _ _ _ _ _ _ j i])
  from N have a: "MEAS pa ! i ! j = Fin (frac (arctan2 (?S / ?N) (?C / ?N) / (2 * pi)))"
    unfolding ij by (simp add: TWOPI_def py_mod_1)
  from N have b: "MEAS pa ! j ! i = Fin (frac (arctan2 (- (?S / ?N)) (?C / ?N) / (2 * pi)))"
    unfolding ji by (simp add: TWOPI_def py_mod_1)
  from pa a b arctan2_antisymmetric [of "?S / ?N" "?C / ?N"] show ?thesis by blast
qed

lemma samples_zero_fifth:
  "union_samples 1 ''MUX'' two_bpms [two_bpm_file 0 0, two_bpm_file 0 0.2] 0 (Suc 0) = [1, 0.2]"
  "union_samples 1 ''MUX'' two_bpms [two_bpm_file 0 0, two_bpm_file 0 0.2] (Suc 0) 0 = [1, 0.8]"
  by (simp_all add: union_samples_def two_bpms_nth wrapped_diff_two_bpm_file)

text \<open>
  Claim C6, evaluated on two files under the Union builder: in the first the two BPMs
  have the same phase, in the second the second BPM is 0.2 after the first. The
  samples of the pair are 1 and 0.2 in one direction and 1 and 0.8 in the other; the
  builder stores their arithmetic means, 0.6 and 0.9, whose sum 1.5 is not 0 modulo 1,
  where the circular mean \<^verbatim>\<open>calc_phase_mean\<close> of the same samples is 0.1 and 0.9.
  Under the Intersection builder the two entries add up to an integer on every input
  (lemma \<open>intersection_antisymmetric\<close>).
\<close>

theorem union_antisymmetry_example:
  "meas_at (get_phases_union False two_bpms 1 ''MUX'' (two_bpm_file 0 0)
              [two_bpm_file 0 0, two_bpm_file 0 0.2] 2) 0 1 = Some (Fin 0.6)
   \<and> meas_at (get_phases_union False two_bpms 1 ''MUX'' (two_bpm_file 0 0)
              [two_bpm_file 0 0, two_bpm_file 0 0.2] 2) 1 0 = Some (Fin 0.9)
   \<and> frac (0.6 + 0.9 :: real) = 0.5
   \<and> calc_phase_mean
        (union_samples 1 ''MUX'' two_bpms [two_bpm_file 0 0, two_bpm_file 0 0.2] 0 1) 1 = Fin 0.1
   \<and> calc_phase_mean
        (union_samples 1 ''MUX'' two_bpms [two_bpm_file 0 0, two_bpm_file 0 0.2] 1 0) 1 = Fin 0.9"
proof -
  let ?Files = "[two_bpm_file 0 0, two_bpm_file 0 0.2]"
  have h: "covers (two_bpm_file 0 0) two_bpms" "0 < length two_bpms" "1 < length two_bpms"
    by (simp_all add: two_bpm_file_covers two_bpms_nth)
  have s: "union_samples 1 ''MUX'' two_bpms ?Files 0 1 = [1, 0.2]"
    "union_samples 1 ''MUX'' two_bpms ?Files 1 0 = [1, 0.8]"
    using samples_zero_fifth by simp_all
  have m: "frac (np_mean [1, 0.2]) = 0.6" "frac (np_mean [1, 0.8]) = 0.9"
    by (simp_all add: np_mean_def frac_def)
  from union_entry [OF h, of False 1 "''MUX''" ?Files 2]
  have 1: "meas_at (get_phases_union False two_bpms 1 ''MUX'' (two_bpm_file 0 0) ?Files 2) 0 1
      = Some (Fin 0.6)"
    unfolding s m by (auto simp: meas_at_def)
  from union_entry [OF h(1) h(3) h(2), of False 1 "''MUX''" ?Files 2]
  have 2: "meas_at (get_phases_union False two_bpms 1 ''MUX'' (two_bpm_file 0 0) ?Files 2) 1 0
      = Some (Fin 0.9)"
    unfolding s m by (auto simp: meas_at_def)
  have 3: "frac (0.6 + 0.9 :: real) = 0.5" by (simp add: frac_def)
  have 4: "calc_phase_mean [1, 0.2] 1 = Fin 0.1"
    by (simp add: calc_phase_mean_def Let_def py_mod_def np_mean_def)
  have 5: "calc_phase_mean [1, 0.8] 1 = Fin 0.9"
    by (simp add: calc_phase_mean_def Let_def py_mod_def np_mean_def)
  from 1 2 3 4 5 show ?thesis unfolding s by simp
qed

end
